theory Spec2Isabelle
  imports Complex_Main
begin

section \<open>RcppML svd: alternating least squares factorisation\<close>

text \<open>
  An embedding of \<^verbatim>\<open>inst/include/RcppML/svd.hpp\<close>. An access outside of a container, which
  C++ leaves undefined, ends the modelled computation with \<open>OutOfRange\<close>. The loops that
  OpenMP may spread over threads write disjoint entries and are taken in sequence. What
  the methods print, and the poll for a user interrupt at the end of each iteration, are
  left out.
\<close>

subsection \<open>Errors\<close>

datatype error =
    MaskAlreadySpecified    \<comment> \<open>stop: a masking function has already been specified\<close>
  | MaskDimsNotEquivalent   \<comment> \<open>stop: dimensions of masking matrix and 'A' are not equivalent\<close>
  | MaskZerosAlready        \<comment> \<open>stop: you already specified to mask zeros ...\<close>
  | MseMaskedNeedsMask      \<comment> \<open>stop: 'mse_masked' can only be run when a masking matrix ...\<close>
  | RankNotEqual            \<comment> \<open>stop: rank of 'u' is not equal to rank of 'v'\<close>
  | DimsNotCompatible       \<comment> \<open>stop: dimensions of 'u' and 'A' are not compatible\<close>
  | NoSparseFitter          \<comment> \<open>the fitters are specialised for the dense matrix type only\<close>
  | OutOfRange              \<comment> \<open>an index or a size outside of a container\<close>

definition is_stop :: "error \<Rightarrow> bool" where
  \<comment> \<open>the errors raised by \<^verbatim>\<open>Rcpp::stop\<close>\<close>
  "is_stop e = (e = MaskAlreadySpecified \<or> e = MaskDimsNotEquivalent \<or> e = MaskZerosAlready
     \<or> e = MseMaskedNeedsMask \<or> e = RankNotEqual \<or> e = DimsNotCompatible)"

subsection \<open>Numbers\<close>

text \<open>
  A \<^verbatim>\<open>double\<close> is a real number, an infinity or NaN. On the real numbers the arithmetic
  is exact: rounding, overflow and underflow are outside of this development, and so is
  the sign of a zero (a divisor that is zero counts as positive; the divisors of this
  program that can be zero are a norm and a count). On the other values the operations
  follow IEEE 754: NaN spreads through every operation and compares false with
  everything, a number other than zero divided by zero is an infinity, zero divided by
  zero is NaN.
\<close>

datatype double = Fin real | PInf | NInf | NaN

definition signed_inf :: "bool \<Rightarrow> double" where
  "signed_inf positive = (if positive then PInf else NInf)"

instantiation double :: "{zero, one, plus, uminus, minus, times, inverse, abs, ord}"
begin

definition zero_double :: double where
  "zero_double = Fin 0"

definition one_double :: double where
  "one_double = Fin 1"

fun plus_double :: "double \<Rightarrow> double \<Rightarrow> double" where
  "plus_double (Fin a) (Fin b) = Fin (a + b)"
| "plus_double NaN y = NaN"
| "plus_double x NaN = NaN"
| "plus_double PInf NInf = NaN"
| "plus_double NInf PInf = NaN"
| "plus_double PInf y = PInf"
| "plus_double x PInf = PInf"
| "plus_double NInf y = NInf"
| "plus_double x NInf = NInf"

fun uminus_double :: "double \<Rightarrow> double" where
  "uminus_double (Fin a) = Fin (- a)"
| "uminus_double PInf = NInf"
| "uminus_double NInf = PInf"
| "uminus_double NaN = NaN"

definition minus_double :: "double \<Rightarrow> double \<Rightarrow> double" where
  "minus_double x y = x + (- y)"

fun times_double :: "double \<Rightarrow> double \<Rightarrow> double" where
  "times_double (Fin a) (Fin b) = Fin (a * b)"
| "times_double NaN y = NaN"
| "times_double x NaN = NaN"
| "times_double (Fin a) PInf = (if a = 0 then NaN else signed_inf (0 < a))"
| "times_double (Fin a) NInf = (if a = 0 then NaN else signed_inf (a < 0))"
| "times_double PInf (Fin b) = (if b = 0 then NaN else signed_inf (0 < b))"
| "times_double NInf (Fin b) = (if b = 0 then NaN else signed_inf (b < 0))"
| "times_double PInf PInf = PInf"
| "times_double NInf NInf = PInf"
| "times_double PInf NInf = NInf"
| "times_double NInf PInf = NInf"

fun divide_double :: "double \<Rightarrow> double \<Rightarrow> double" where
  "divide_double (Fin a) (Fin b) =
     (if b \<noteq> 0 then Fin (a / b) else if a = 0 then NaN else signed_inf (0 < a))"
| "divide_double NaN y = NaN"
| "divide_double x NaN = NaN"
| "divide_double (Fin a) y = Fin 0"
| "divide_double PInf (Fin b) = signed_inf (0 \<le> b)"
| "divide_double NInf (Fin b) = signed_inf (b < 0)"
| "divide_double x y = NaN"

fun inverse_double :: "double \<Rightarrow> double" where
  "inverse_double (Fin a) = (if a = 0 then PInf else Fin (inverse a))"
| "inverse_double NaN = NaN"
| "inverse_double x = Fin 0"

fun abs_double :: "double \<Rightarrow> double" where
  "abs_double (Fin a) = Fin \<bar>a\<bar>"
| "abs_double NaN = NaN"
| "abs_double x = PInf"

fun less_double :: "double \<Rightarrow> double \<Rightarrow> bool" where
  "less_double (Fin a) (Fin b) = (a < b)"
| "less_double NaN y = False"
| "less_double x NaN = False"
| "less_double x NInf = False"
| "less_double PInf y = False"
| "less_double x y = True"

definition less_eq_double :: "double \<Rightarrow> double \<Rightarrow> bool" where
  "less_eq_double x y = (x < y \<or> (x = y \<and> x \<noteq> NaN))"

instance ..

end

fun dsqrt :: "double \<Rightarrow> double" where
  \<comment> \<open>\<^verbatim>\<open>std::sqrt\<close>\<close>
  "dsqrt (Fin a) = (if a < 0 then NaN else Fin (sqrt a))"
| "dsqrt PInf = PInf"
| "dsqrt x = NaN"

text \<open>Sums of doubles do not depend on the order of the summands.\<close>

instance double :: comm_monoid_add
proof
  fix u v w :: double
  show "0 + u = u"
    unfolding zero_double_def by (cases u; simp)
  show "u + v = v + u"
    by (cases u; cases v; simp)
  show "(u + v) + w = u + (v + w)"
    by (cases u; cases v; cases w; simp)
qed

instance double :: numeral ..

instance double :: power ..

subsection \<open>Containers\<close>

definition eps :: real where
  "eps = 1 / 10 ^ 15"

definition DIV_OFFSET :: double where
  "DIV_OFFSET = Fin eps"

text \<open>\<^verbatim>\<open>Eigen::MatrixXd\<close>: the shape and the entry at (row, column).\<close>

record mat =
  nrows :: nat
  ncols :: nat
  ent :: "nat \<Rightarrow> nat \<Rightarrow> double"

text \<open>
  Modelled from the spec: \<^verbatim>\<open>Rcpp::SparseMatrix\<close> is not part of the sources. It is taken
  as a column-compressed matrix: for each column the list of its stored (row, value)
  pairs, in storage order. \<open>InnerIndices\<close> lists the stored rows of a column, and the
  vectors \<open>i\<close> and \<open>x\<close> have one element for each stored entry.
\<close>

record spmat =
  sp_rows :: nat
  sp_cols :: nat
  sp_col :: "(nat \<times> double) list list"

definition InnerIndices :: "spmat \<Rightarrow> nat \<Rightarrow> nat list" where
  "InnerIndices m c = map fst (sp_col m ! c)"

definition nnz :: "spmat \<Rightarrow> nat" where
  \<comment> \<open>\<^verbatim>\<open>m.i.size()\<close> and \<^verbatim>\<open>m.x.size()\<close>\<close>
  "nnz m = sum_list (map length (sp_col m))"

definition empty_spmat :: spmat where
  \<comment> \<open>\<^verbatim>\<open>Rcpp::SparseMatrix()\<close>\<close>
  "empty_spmat = \<lparr>sp_rows = 0, sp_cols = 0, sp_col = []\<rparr>"

text \<open>The template parameter \<^verbatim>\<open>T\<close> of the class has two instances.\<close>

datatype matrixT = Dense mat | Sparse spmat

fun rowsT :: "matrixT \<Rightarrow> nat" where
  "rowsT (Dense a) = nrows a"
| "rowsT (Sparse a) = sp_rows a"

fun colsT :: "matrixT \<Rightarrow> nat" where
  "colsT (Dense a) = ncols a"
| "colsT (Sparse a) = sp_cols a"

subsection \<open>The class\<close>

text \<open>
  The fields of \<^verbatim>\<open>class svd\<close> that the modelled methods read or write. The private
  fields \<^verbatim>\<open>tol_\<close>, \<^verbatim>\<open>mse_\<close>, \<^verbatim>\<open>iter_\<close> and \<^verbatim>\<open>best_model_\<close> carry the names of their
  getters; \<^verbatim>\<open>u\<close>, \<^verbatim>\<open>v\<close> and \<^verbatim>\<open>d\<close> likewise. \<open>als_steps\<close> is a ghost field, not in the
  source: it counts the executions of a fitter's loop body.
\<close>

record svd =
  matrixA :: matrixT
  mask_matrix :: spmat
  matrixU :: mat
  matrixV :: mat
  vectorD :: "double list"
  fit_tol :: double
  fit_mse :: double
  fit_iter :: nat
  best_model :: nat
  mask :: bool
  mask_zeros :: bool
  symmetric :: bool
  maxit :: nat
  L1 :: "double \<times> double"
  tol :: double
  als_steps :: nat

subsection \<open>Setters\<close>

text \<open>
  A method that can stop returns the error, if any, next to the state the object is
  left in.
\<close>

definition maskZeros :: "svd \<Rightarrow> error option \<times> svd" where
  "maskZeros s =
     (if mask s then (Some MaskAlreadySpecified, s)
      else (None, s\<lparr>mask_zeros := True\<rparr>))"

definition maskMatrix :: "(spmat \<Rightarrow> bool) \<Rightarrow> spmat \<Rightarrow> svd \<Rightarrow> error option \<times> svd" where
  \<comment> \<open>\<open>isAppxSymmetric\<close> is the container's symmetry predicate\<close>
  "maskMatrix isAppxSymmetric m s =
     (if mask s then (Some MaskAlreadySpecified, s)
      else if sp_rows m \<noteq> rowsT (matrixA s) \<or> sp_cols m \<noteq> colsT (matrixA s)
        then (Some MaskDimsNotEquivalent, s)
      else if mask_zeros s then (Some MaskZerosAlready, s)
      else (None, s\<lparr>mask := True, mask_matrix := m,
              symmetric := (if symmetric s then isAppxSymmetric m else symmetric s)\<rparr>))"

definition masking_state :: "svd \<Rightarrow> bool \<times> bool \<times> spmat" where
  "masking_state s = (mask s, mask_zeros s, mask_matrix s)"

subsection \<open>Vectors\<close>

definition col :: "mat \<Rightarrow> nat \<Rightarrow> nat \<Rightarrow> double" where
  "col m c = (\<lambda>r. ent m r c)"

definition row :: "mat \<Rightarrow> nat \<Rightarrow> nat \<Rightarrow> double" where
  "row m r = (\<lambda>c. ent m r c)"

definition col_list :: "mat \<Rightarrow> nat \<Rightarrow> double list" where
  \<comment> \<open>a copy of a column, as \<^verbatim>\<open>Eigen::MatrixXd u_it = u.col(k)\<close> takes it\<close>
  "col_list m c = map (col m c) [0..<nrows m]"

definition dot :: "nat \<Rightarrow> (nat \<Rightarrow> double) \<Rightarrow> (nat \<Rightarrow> double) \<Rightarrow> double" where
  "dot n x y = sum_list (map (\<lambda>i. x i * y i) [0..<n])"

definition vnorm :: "nat \<Rightarrow> (nat \<Rightarrow> double) \<Rightarrow> double" where
  \<comment> \<open>\<^verbatim>\<open>x.norm()\<close>, and \<^verbatim>\<open>svd::norm\<close>\<close>
  "vnorm n x = dsqrt (dot n x x)"

definition set_col :: "mat \<Rightarrow> nat \<Rightarrow> (nat \<Rightarrow> double) \<Rightarrow> mat" where
  \<comment> \<open>the loop \<^verbatim>\<open>for (i = 0; i < m.rows(); ++i) m.col(c)(i) = f(i)\<close>\<close>
  "set_col m c f = m\<lparr>ent := (\<lambda>r c'. if c' = c \<and> r < nrows m then f r else ent m r c')\<rparr>"

definition penalty :: "double \<Rightarrow> double \<Rightarrow> double" where
  \<comment> \<open>\<^verbatim>\<open>if (L1[j] > 0) x -= L1[j]\<close>\<close>
  "penalty l x = (if l > 0 then x - l else x)"

subsection \<open>The rank one fitter\<close>

text \<open>
  The correlation helper \<^verbatim>\<open>cor\<close> is not part of the sources: every fitter takes it as
  its first argument. The local \<^verbatim>\<open>double d\<close> of a fitter is not initialised: its first
  value is an argument too (\<open>d0\<close>).

  The accesses of one iteration are inside of their containers under \<open>rank_one_in_range\<close>.
\<close>

definition rank_one_in_range :: "mat \<Rightarrow> svd \<Rightarrow> bool" where
  "rank_one_in_range A s =
     (let U = matrixU s; V = matrixV s in
      0 < ncols U \<and> 0 < ncols V
      \<and> (0 < nrows V \<longrightarrow> nrows U = nrows A \<and> nrows V \<le> ncols A)
      \<and> (0 < nrows U \<longrightarrow> nrows V = ncols A \<and> nrows U \<le> nrows A))"

definition unit_col :: "mat \<Rightarrow> nat \<Rightarrow> mat" where
  \<comment> \<open>\<^verbatim>\<open>m.col(c) /= m.col(c).norm() + DIV_OFFSET\<close>\<close>
  "unit_col m c = set_col m c (\<lambda>i. ent m i c / (vnorm (nrows m) (col m c) + DIV_OFFSET))"

definition rank_one_v_update :: "mat \<Rightarrow> svd \<Rightarrow> mat" where
  \<comment> \<open>the first inner loop: column 0 of V before it is scaled\<close>
  "rank_one_v_update A s =
     (let U = matrixU s; V = matrixV s;
          a = dot (nrows U) (col U 0) (col U 0) + DIV_OFFSET
      in set_col V 0 (\<lambda>i. penalty (snd (L1 s)) (dot (nrows U) (col U 0) (col A i)) / a))"

definition rank_one_u_update :: "mat \<Rightarrow> svd \<Rightarrow> mat \<Rightarrow> mat" where
  \<comment> \<open>the second inner loop, on the scaled V: column 0 of U before it is scaled\<close>
  "rank_one_u_update A s V2 =
     (let U = matrixU s;
          a = dot (nrows V2) (col V2 0) (col V2 0) + DIV_OFFSET
      in set_col U 0 (\<lambda>i. penalty (fst (L1 s)) (dot (nrows V2) (col V2 0) (row A i)) / a))"

definition rank_one_iteration ::
  "(double list \<Rightarrow> double list \<Rightarrow> double) \<Rightarrow> mat \<Rightarrow> svd \<Rightarrow> error + (svd \<times> double)" where
  "rank_one_iteration cor A s =
     (if \<not> rank_one_in_range A s then Inl OutOfRange
      else
        let u_it = col_list (matrixU s) 0;
            V2 = unit_col (rank_one_v_update A s) 0;
            U1 = rank_one_u_update A s V2;
            d = vnorm (nrows U1) (col U1 0);
            U2 = unit_col U1 0;
            t = cor (col_list U2 0) u_it
        in Inr (s\<lparr>matrixU := U2, matrixV := V2, fit_tol := t,
                  als_steps := Suc (als_steps s)\<rparr>, d))"

function fit_rank_one_loop ::
  "(double list \<Rightarrow> double list \<Rightarrow> double) \<Rightarrow> mat \<Rightarrow> svd \<Rightarrow> double \<Rightarrow> error + (svd \<times> double)" where
  "fit_rank_one_loop cor A s d =
     (if fit_iter s < maxit s then
        (case rank_one_iteration cor A s of
           Inl e \<Rightarrow> Inl e
         | Inr (s', d') \<Rightarrow>
             if fit_tol s' < tol s' then Inr (s', d')
             else fit_rank_one_loop cor A (s'\<lparr>fit_iter := Suc (fit_iter s')\<rparr>) d')
      else Inr (s, d))"
  by pat_completeness auto
termination
  by (relation "measure (\<lambda>(cor, A, s, d). maxit s - fit_iter s)")
     (auto simp: rank_one_iteration_def Let_def split: if_splits)

definition scale_col :: "mat \<Rightarrow> nat \<Rightarrow> double \<Rightarrow> mat" where
  \<comment> \<open>\<^verbatim>\<open>m.col(c) *= d\<close>\<close>
  "scale_col m c d = set_col m c (\<lambda>i. ent m i c * d)"

definition fit_rank_one ::
  "(double list \<Rightarrow> double list \<Rightarrow> double) \<Rightarrow> double \<Rightarrow> svd \<Rightarrow> error + svd" where
  "fit_rank_one cor d0 s =
     (case matrixA s of
        Sparse _ \<Rightarrow> Inl NoSparseFitter
      | Dense A \<Rightarrow>
          (case fit_rank_one_loop cor A s d0 of
             Inl e \<Rightarrow> Inl e
           | Inr (s', d) \<Rightarrow>
               if 0 < ncols (matrixU s') then Inr (s'\<lparr>matrixU := scale_col (matrixU s') 0 d\<rparr>)
               else Inl OutOfRange))"

subsection \<open>The rank two fitter\<close>

definition rank_two_in_range :: "mat \<Rightarrow> svd \<Rightarrow> bool" where
  \<comment> \<open>the V update reads \<^verbatim>\<open>u.col(0)(i)\<close> for every row \<open>i\<close> of V, the U update
      \<^verbatim>\<open>v.col(0)(i)\<close> for every row \<open>i\<close> of U\<close>
  "rank_two_in_range A s =
     (let U = matrixU s; V = matrixV s in
      1 < ncols U \<and> 1 < ncols V
      \<and> (0 < nrows V \<longrightarrow> nrows U = nrows A \<and> nrows V \<le> ncols A \<and> nrows V \<le> nrows U)
      \<and> (0 < nrows U \<longrightarrow> nrows V = ncols A \<and> nrows U \<le> nrows A \<and> nrows U \<le> nrows V))"

definition rank_two_v_update :: "mat \<Rightarrow> svd \<Rightarrow> mat" where
  \<comment> \<open>the first inner loop: column 1 of V before it is scaled\<close>
  "rank_two_v_update A s =
     (let U = matrixU s; V = matrixV s;
          a0 = dot (nrows U) (col U 1) (col U 0) + DIV_OFFSET;
          a1 = dot (nrows U) (col U 1) (col U 1) + DIV_OFFSET
      in set_col V 1
           (\<lambda>i. penalty (snd (L1 s))
                   (dot (nrows U) (col U 1) (col A i) - ent U i 0 * a0) / a1))"

definition rank_two_u_update :: "mat \<Rightarrow> svd \<Rightarrow> mat \<Rightarrow> mat" where
  \<comment> \<open>the second inner loop, on the scaled V: column 1 of U before it is scaled\<close>
  "rank_two_u_update A s V2 =
     (let U = matrixU s;
          a0 = dot (nrows V2) (col V2 1) (col V2 0) + DIV_OFFSET;
          a1 = dot (nrows V2) (col V2 1) (col V2 1) + DIV_OFFSET
      in set_col U 1
           (\<lambda>i. penalty (fst (L1 s))
                   (dot (nrows V2) (col V2 1) (row A i) - ent V2 i 0 * a0) / a1))"

definition rank_two_iteration ::
  "(double list \<Rightarrow> double list \<Rightarrow> double) \<Rightarrow> mat \<Rightarrow> svd \<Rightarrow> error + (svd \<times> double)" where
  "rank_two_iteration cor A s =
     (if \<not> rank_two_in_range A s then Inl OutOfRange
      else
        let u_it = col_list (matrixU s) 1;
            V2 = unit_col (rank_two_v_update A s) 1;
            U1 = rank_two_u_update A s V2;
            d = vnorm (nrows U1) (col U1 1);
            U2 = unit_col U1 1;
            t = cor (col_list U2 1) u_it
        in Inr (s\<lparr>matrixU := U2, matrixV := V2, fit_tol := t,
                  als_steps := Suc (als_steps s)\<rparr>, d))"

function fit_rank_two_loop ::
  "(double list \<Rightarrow> double list \<Rightarrow> double) \<Rightarrow> mat \<Rightarrow> svd \<Rightarrow> double \<Rightarrow> error + (svd \<times> double)" where
  "fit_rank_two_loop cor A s d =
     (if fit_iter s < maxit s then
        (case rank_two_iteration cor A s of
           Inl e \<Rightarrow> Inl e
         | Inr (s', d') \<Rightarrow>
             if fit_tol s' < tol s' then Inr (s', d')
             else fit_rank_two_loop cor A (s'\<lparr>fit_iter := Suc (fit_iter s')\<rparr>) d')
      else Inr (s, d))"
  by pat_completeness auto
termination
  by (relation "measure (\<lambda>(cor, A, s, d). maxit s - fit_iter s)")
     (auto simp: rank_two_iteration_def Let_def split: if_splits)

definition fit_rank_two ::
  "(double list \<Rightarrow> double list \<Rightarrow> double) \<Rightarrow> double \<Rightarrow> svd \<Rightarrow> error + svd" where
  "fit_rank_two cor d0 s =
     (case matrixA s of
        Sparse _ \<Rightarrow> Inl NoSparseFitter
      | Dense A \<Rightarrow>
          (case fit_rank_two_loop cor A s d0 of
             Inl e \<Rightarrow> Inl e
           | Inr (s', d) \<Rightarrow>
               if 1 < ncols (matrixU s') then Inr (s'\<lparr>matrixU := scale_col (matrixU s') 1 d\<rparr>)
               else Inl OutOfRange))"

subsection \<open>The rank k fitter\<close>

definition rank_k_in_range :: "mat \<Rightarrow> nat \<Rightarrow> svd \<Rightarrow> bool" where
  "rank_k_in_range A k s =
     (let U = matrixU s; V = matrixV s in
      k < ncols U \<and> k < ncols V
      \<and> (0 < nrows V \<longrightarrow> nrows U = nrows A \<and> nrows V \<le> ncols A)
      \<and> (0 < nrows U \<longrightarrow> nrows V = ncols A \<and> nrows U \<le> nrows A))"

definition deflate :: "mat \<Rightarrow> mat \<Rightarrow> nat \<Rightarrow> nat \<Rightarrow> double \<Rightarrow> double" where
  \<comment> \<open>\<^verbatim>\<open>for (_k = k-1; _k >= 0; --_k) x -= p.col(k).dot(p.col(_k)) * q.col(_k)(i)\<close>\<close>
  "deflate P Q k i x =
     foldl (\<lambda>y j. y - dot (nrows P) (col P k) (col P j) * ent Q i j) x (rev [0..<k])"

definition rank_k_v_update :: "mat \<Rightarrow> nat \<Rightarrow> svd \<Rightarrow> mat" where
  \<comment> \<open>the first inner loop and the division of the whole column that follows it\<close>
  "rank_k_v_update A k s =
     (let U = matrixU s; V = matrixV s;
          a = dot (nrows U) (col U k) (col U k) + DIV_OFFSET;
          V0 = set_col V k
                 (\<lambda>i. deflate U V k i
                         (penalty (snd (L1 s)) (dot (nrows U) (col U k) (col A i))) / a)
      in set_col V0 k
           (\<lambda>i. ent V0 i k / (dot (nrows U) (col U k) (col U k) + DIV_OFFSET)))"

definition rank_k_u_update :: "mat \<Rightarrow> nat \<Rightarrow> svd \<Rightarrow> mat \<Rightarrow> mat" where
  \<comment> \<open>the second inner loop, on the scaled V: column \<open>k\<close> of U before it is scaled\<close>
  "rank_k_u_update A k s V2 =
     (let U = matrixU s;
          a = dot (nrows V2) (col V2 k) (col V2 k) + DIV_OFFSET
      in set_col U k
           (\<lambda>i. deflate V2 U k i
                   (penalty (fst (L1 s)) (dot (nrows V2) (col V2 k) (row A i))) / a))"

definition rank_k_iteration ::
  "(double list \<Rightarrow> double list \<Rightarrow> double) \<Rightarrow> mat \<Rightarrow> nat \<Rightarrow> svd \<Rightarrow> error + (svd \<times> double)" where
  "rank_k_iteration cor A k s =
     (if \<not> rank_k_in_range A k s then Inl OutOfRange
      else
        let u_it = col_list (matrixU s) k;
            V2 = unit_col (rank_k_v_update A k s) k;
            U1 = rank_k_u_update A k s V2;
            d_k = vnorm (nrows U1) (col U1 k);
            U2 = unit_col U1 k;
            t = cor (col_list U2 k) u_it
        in Inr (s\<lparr>matrixU := U2, matrixV := V2, fit_tol := t,
                  als_steps := Suc (als_steps s)\<rparr>, d_k))"

function fit_rank_k_loop ::
  "(double list \<Rightarrow> double list \<Rightarrow> double) \<Rightarrow> mat \<Rightarrow> nat \<Rightarrow> svd \<Rightarrow> double
     \<Rightarrow> error + (svd \<times> double)" where
  "fit_rank_k_loop cor A k s d =
     (if fit_iter s < maxit s then
        (case rank_k_iteration cor A k s of
           Inl e \<Rightarrow> Inl e
         | Inr (s', d') \<Rightarrow>
             if fit_tol s' < tol s' then Inr (s', d')
             else fit_rank_k_loop cor A k (s'\<lparr>fit_iter := Suc (fit_iter s')\<rparr>) d')
      else Inr (s, d))"
  by pat_completeness auto
termination
  by (relation "measure (\<lambda>(cor, A, k, s, d). maxit s - fit_iter s)")
     (auto simp: rank_k_iteration_def Let_def split: if_splits)

definition fit_rank_k ::
  "(double list \<Rightarrow> double list \<Rightarrow> double) \<Rightarrow> double \<Rightarrow> nat \<Rightarrow> svd \<Rightarrow> error + svd" where
  "fit_rank_k cor d0 k s =
     (case matrixA s of
        Sparse _ \<Rightarrow> Inl NoSparseFitter
      | Dense A \<Rightarrow>
          (case fit_rank_k_loop cor A k s d0 of
             Inl e \<Rightarrow> Inl e
           | Inr (s', d) \<Rightarrow>
               if k < ncols (matrixU s') then Inr (s'\<lparr>matrixU := scale_col (matrixU s') k d\<rparr>)
               else Inl OutOfRange))"

subsection \<open>fit\<close>

fun fit_ranks ::
  "(double list \<Rightarrow> double list \<Rightarrow> double) \<Rightarrow> (nat \<Rightarrow> double) \<Rightarrow> nat list \<Rightarrow> svd \<Rightarrow> error + svd" where
  \<comment> \<open>the first loop of \<^verbatim>\<open>fit\<close>, over the column indices \<open>ks\<close>; \<open>junk k\<close> is what the
      uninitialised \<^verbatim>\<open>d\<close> of the fitter of column \<open>k\<close> holds\<close>
  "fit_ranks cor junk [] s = Inr s"
| "fit_ranks cor junk (k # ks) s =
     (case (if k = 0 then fit_rank_one cor (junk k) s
            else if k = 1 then fit_rank_two cor (junk k) s
            else fit_rank_k cor (junk k) k s) of
        Inl e \<Rightarrow> Inl e
      | Inr s' \<Rightarrow> fit_ranks cor junk ks s')"

fun calc_diagonal :: "nat list \<Rightarrow> svd \<Rightarrow> error + svd" where
  \<comment> \<open>the second loop of \<^verbatim>\<open>fit\<close>: \<^verbatim>\<open>d(i) = u.col(i).norm(); u.col(i) /= d(i)\<close>\<close>
  "calc_diagonal [] s = Inr s"
| "calc_diagonal (i # is) s =
     (if length (vectorD s) \<le> i then Inl OutOfRange
      else
        let U = matrixU s;
            n = vnorm (nrows U) (col U i)
        in calc_diagonal is
             (s\<lparr>vectorD := (vectorD s)[i := n],
                matrixU := set_col U i (\<lambda>r. ent U r i / n)\<rparr>))"

definition fit ::
  "(double list \<Rightarrow> double list \<Rightarrow> double) \<Rightarrow> (nat \<Rightarrow> double) \<Rightarrow> svd \<Rightarrow> error + svd" where
  "fit cor junk s =
     (case fit_ranks cor junk [0..<ncols (matrixU s)] s of
        Inl e \<Rightarrow> Inl e
      | Inr s' \<Rightarrow> calc_diagonal [0..<ncols (matrixU s')] s')"

subsection \<open>Mean squared error\<close>

fun collect :: "(error + 'a) list \<Rightarrow> error + 'a list" where
  "collect [] = Inr []"
| "collect (x # xs) =
     (case x of
        Inl e \<Rightarrow> Inl e
      | Inr y \<Rightarrow> (case collect xs of Inl e \<Rightarrow> Inl e | Inr ys \<Rightarrow> Inr (y # ys)))"

definition uv_col :: "mat \<Rightarrow> mat \<Rightarrow> nat \<Rightarrow> nat \<Rightarrow> double" where
  \<comment> \<open>\<^verbatim>\<open>uv_i = u0 * v.col(i)\<close> with \<^verbatim>\<open>u0 = u.transpose()\<close>: one entry for each column of U\<close>
  "uv_col U V i = (\<lambda>r. dot (nrows U) (col U r) (col V i))"

definition square_sum :: "nat \<Rightarrow> (nat \<Rightarrow> double) \<Rightarrow> double" where
  \<comment> \<open>\<^verbatim>\<open>x.array().square().sum()\<close>\<close>
  "square_sum n x = sum_list (map (\<lambda>r. (x r)\<^sup>2) [0..<n])"

definition mask_out :: "svd \<Rightarrow> nat \<Rightarrow> (nat \<Rightarrow> double) \<Rightarrow> (nat \<Rightarrow> double)" where
  \<comment> \<open>\<^verbatim>\<open>for (it = 0; it < m.size(); ++it) uv_i(m[it]) = 0\<close>\<close>
  "mask_out s i x = (\<lambda>r. if r \<in> set (InnerIndices (mask_matrix s) i) then 0 else x r)"

definition mask_in_range :: "svd \<Rightarrow> nat \<Rightarrow> bool" where
  "mask_in_range s i =
     (i < length (sp_col (mask_matrix s))
      \<and> list_all (\<lambda>r. r < ncols (matrixU s)) (InnerIndices (mask_matrix s) i))"

text \<open>Modelled from the spec: \<^verbatim>\<open>n_nonzeros\<close>, the count of the nonzero entries of a dense matrix.\<close>

definition n_nonzeros :: "mat \<Rightarrow> nat" where
  "n_nonzeros A =
     sum_list (map (\<lambda>c. length (filter (\<lambda>r. ent A r c \<noteq> 0) [0..<nrows A])) [0..<ncols A])"

definition dense_loss :: "mat \<Rightarrow> svd \<Rightarrow> nat \<Rightarrow> error + double" where
  \<comment> \<open>what one round of the loop of the dense \<^verbatim>\<open>mse\<close> adds to \<^verbatim>\<open>losses(i)\<close>\<close>
  "dense_loss A s i =
     (let U = matrixU s; V = matrixV s; uv_i = uv_col U V i in
      if nrows U \<noteq> nrows V then Inl OutOfRange
      else if mask_zeros s then
        (if 0 < nrows A \<and> \<not> i < ncols A then Inl OutOfRange
         else if \<not> list_all (\<lambda>r. ent A r i \<noteq> 0 \<longrightarrow> r < ncols U) [0..<nrows A]
           then Inl OutOfRange
         else Inr (sum_list (map (\<lambda>r. if ent A r i \<noteq> 0 then (uv_i r - ent A r i)\<^sup>2 else 0)
                              [0..<nrows A])))
      else if 0 < nrows A \<and> \<not> (i < ncols A \<and> nrows A \<le> ncols U) then Inl OutOfRange
      else
        let uv1 = (\<lambda>r. if r < nrows A then uv_i r - ent A r i else uv_i r) in
        if mask s then
          (if mask_in_range s i then Inr (square_sum (ncols U) (mask_out s i uv1))
           else Inl OutOfRange)
        else Inr (square_sum (ncols U) uv1))"

definition sparse_loss :: "spmat \<Rightarrow> svd \<Rightarrow> nat \<Rightarrow> error + double" where
  \<comment> \<open>the same for the sparse \<^verbatim>\<open>mse\<close>, whose inner loops visit the stored entries of
      column \<open>i\<close> of A\<close>
  "sparse_loss A s i =
     (let U = matrixU s; V = matrixV s; uv_i = uv_col U V i in
      if nrows U \<noteq> nrows V then Inl OutOfRange
      else if \<not> i < length (sp_col A) then Inl OutOfRange
      else if \<not> list_all (\<lambda>(r, x). r < ncols U) (sp_col A ! i) then Inl OutOfRange
      else if mask_zeros s then
        Inr (sum_list (map (\<lambda>(r, x). (uv_i r - x)\<^sup>2) (sp_col A ! i)))
      else
        let uv1 = foldl (\<lambda>f (r, x). f(r := f r - x)) uv_i (sp_col A ! i) in
        if mask s then
          (if mask_in_range s i then Inr (square_sum (ncols U) (mask_out s i uv1))
           else Inl OutOfRange)
        else Inr (square_sum (ncols U) uv1))"

definition losses_sum :: "(nat \<Rightarrow> double) \<Rightarrow> double list \<Rightarrow> double" where
  \<comment> \<open>\<^verbatim>\<open>losses.sum()\<close>: the array \<^verbatim>\<open>losses\<close> is not initialised, \<open>losses0 i\<close> is what
      \<^verbatim>\<open>losses(i)\<close> holds before the loop adds to it\<close>
  "losses_sum losses0 ls = sum_list (map (\<lambda>i. losses0 i + ls ! i) [0..<length ls])"

definition mse :: "(nat \<Rightarrow> double) \<Rightarrow> svd \<Rightarrow> error + double" where
  "mse losses0 s =
     (let U = matrixU s; V = matrixV s in
      case collect (map (case matrixA s of Dense A \<Rightarrow> dense_loss A s
                                          | Sparse A \<Rightarrow> sparse_loss A s) [0..<ncols V]) of
        Inl e \<Rightarrow> Inl e
      | Inr ls \<Rightarrow>
          if mask s then
            Inr (losses_sum losses0 ls
                 / Fin (real_of_int (int (ncols V * ncols U) - int (nnz (mask_matrix s)))))
          else if mask_zeros s then
            Inr (losses_sum losses0 ls
                 / Fin (real (case matrixA s of Dense A \<Rightarrow> n_nonzeros A | Sparse A \<Rightarrow> nnz A)))
          else Inr (losses_sum losses0 ls / Fin (real (ncols V * ncols U))))"

subsection \<open>Mean squared error of the masked entries\<close>

text \<open>
  Modelled from the spec: \<^verbatim>\<open>InnerIteratorInRange\<close> and \<^verbatim>\<open>emptyInnerIndices\<close> belong to the
  sparse container. The first visits the stored entries of a column whose row is in a
  given list, the second lists the rows of a column that hold no stored entry.
\<close>

definition InnerIteratorInRange :: "spmat \<Rightarrow> nat \<Rightarrow> nat list \<Rightarrow> (nat \<times> double) list" where
  "InnerIteratorInRange A c rs = filter (\<lambda>(r, x). r \<in> set rs) (sp_col A ! c)"

definition emptyInnerIndices :: "spmat \<Rightarrow> nat \<Rightarrow> nat list" where
  "emptyInnerIndices A c = filter (\<lambda>r. r \<notin> set (InnerIndices A c)) [0..<sp_rows A]"

fun set_intersection :: "nat list \<Rightarrow> nat list \<Rightarrow> nat list" where
  \<comment> \<open>\<^verbatim>\<open>std::set_intersection\<close> of two sorted ranges\<close>
  "set_intersection [] ys = []"
| "set_intersection xs [] = []"
| "set_intersection (x # xs) (y # ys) =
     (if x < y then set_intersection xs (y # ys)
      else if y < x then set_intersection (x # xs) ys
      else x # set_intersection xs ys)"

definition dense_masked_loss :: "mat \<Rightarrow> svd \<Rightarrow> nat \<Rightarrow> error + double" where
  "dense_masked_loss A s i =
     (let U = matrixU s; V = matrixV s in
      if \<not> i < length (sp_col (mask_matrix s)) then Inl OutOfRange
      else
        let masked_rows = InnerIndices (mask_matrix s) i in
        if masked_rows \<noteq> [] \<and> nrows U \<noteq> nrows V then Inl OutOfRange
        else if \<not> list_all (\<lambda>r. r < ncols U \<and> r < nrows A \<and> i < ncols A) masked_rows
          then Inl OutOfRange
        else Inr (sum_list (map (\<lambda>r. (uv_col U V i r - ent A r i)\<^sup>2) masked_rows)))"

definition sparse_masked_loss :: "spmat \<Rightarrow> svd \<Rightarrow> nat \<Rightarrow> error + double" where
  "sparse_masked_loss A s i =
     (let U = matrixU s; V = matrixV s in
      if \<not> i < length (sp_col (mask_matrix s)) then Inl OutOfRange
      else
        let masked_rows = InnerIndices (mask_matrix s) i in
        if masked_rows = [] then Inr 0
        else if \<not> i < length (sp_col A) then Inl OutOfRange
        else
          let hits = InnerIteratorInRange A i masked_rows;
              masked_zero_rows = set_intersection (emptyInnerIndices A i) masked_rows
          in if (hits \<noteq> [] \<or> masked_zero_rows \<noteq> []) \<and> nrows U \<noteq> nrows V
             then Inl OutOfRange
             else if \<not> list_all (\<lambda>r. r < ncols U) (map fst hits @ masked_zero_rows)
             then Inl OutOfRange
             else Inr (sum_list (map (\<lambda>(r, x). (uv_col U V i r - x)\<^sup>2) hits)
                       + sum_list (map (\<lambda>r. (uv_col U V i r)\<^sup>2) masked_zero_rows)))"

definition mse_masked :: "(nat \<Rightarrow> double) \<Rightarrow> svd \<Rightarrow> (error + double) \<times> svd" where
  \<comment> \<open>the result, or the error, next to the state the object is left in\<close>
  "mse_masked losses0 s =
     (if \<not> mask s then (Inl MseMaskedNeedsMask, s)
      else
        (case collect (map (case matrixA s of Dense A \<Rightarrow> dense_masked_loss A s
                                             | Sparse A \<Rightarrow> sparse_masked_loss A s)
                         [0..<ncols (matrixV s)]) of
           Inl e \<Rightarrow> Inl e
         | Inr ls \<Rightarrow> Inr (losses_sum losses0 ls / Fin (real (nnz (mask_matrix s)))), s))"

subsection \<open>fit\_restarts\<close>

text \<open>
  The locals \<^verbatim>\<open>u_best\<close>, \<^verbatim>\<open>v_best\<close>, \<^verbatim>\<open>tol_best\<close> and \<^verbatim>\<open>mse_best\<close> of \<^verbatim>\<open>fit_restarts\<close>.
\<close>

record best =
  u_best :: mat
  v_best :: mat
  tol_best :: double
  mse_best :: double

definition restart ::
  "(double list \<Rightarrow> double list \<Rightarrow> double) \<Rightarrow> (nat \<Rightarrow> double) \<Rightarrow> (nat \<Rightarrow> double) \<Rightarrow> mat \<Rightarrow> svd
     \<Rightarrow> error + svd" where
  \<comment> \<open>the body of the loop of \<^verbatim>\<open>fit_restarts\<close> up to \<^verbatim>\<open>mse_ = mse()\<close>\<close>
  "restart cor junk losses0 u_i s =
     (let s1 = s\<lparr>matrixU := u_i, fit_tol := 1, fit_iter := 0\<rparr> in
      if nrows (matrixU s1) \<noteq> nrows (matrixV s1) then Inl RankNotEqual
      else if ncols (matrixU s1) \<noteq> rowsT (matrixA s1) then Inl DimsNotCompatible
      else
        (case fit cor junk s1 of
           Inl e \<Rightarrow> Inl e
         | Inr s2 \<Rightarrow>
             (case mse losses0 s2 of
                Inl e \<Rightarrow> Inl e
              | Inr m \<Rightarrow> Inr (s2\<lparr>fit_mse := m\<rparr>))))"

fun restarts_loop ::
  "(double list \<Rightarrow> double list \<Rightarrow> double) \<Rightarrow> (nat \<Rightarrow> nat \<Rightarrow> double) \<Rightarrow> (nat \<Rightarrow> nat \<Rightarrow> double)
     \<Rightarrow> nat \<Rightarrow> mat list \<Rightarrow> svd \<Rightarrow> best \<Rightarrow> error + (svd \<times> best)" where
  \<comment> \<open>the loop from index \<open>i\<close> on, over the candidates that are left\<close>
  "restarts_loop cor junk losses0 i [] s b = Inr (s, b)"
| "restarts_loop cor junk losses0 i (u_i # us) s b =
     (case restart cor (junk i) (losses0 i) u_i s of
        Inl e \<Rightarrow> Inl e
      | Inr s' \<Rightarrow>
          if i = 0 \<or> fit_mse s' < mse_best b then
            restarts_loop cor junk losses0 (Suc i) us (s'\<lparr>best_model := i\<rparr>)
              \<lparr>u_best = matrixU s', v_best = matrixV s',
               tol_best = fit_tol s', mse_best = fit_mse s'\<rparr>
          else restarts_loop cor junk losses0 (Suc i) us s' b)"

definition initial_best :: "svd \<Rightarrow> best" where
  \<comment> \<open>the locals of \<^verbatim>\<open>fit_restarts\<close> before its loop\<close>
  "initial_best s =
     \<lparr>u_best = matrixU s, v_best = matrixV s, tol_best = fit_tol s, mse_best = 0\<rparr>"

definition fit_restarts ::
  "(double list \<Rightarrow> double list \<Rightarrow> double) \<Rightarrow> (nat \<Rightarrow> nat \<Rightarrow> double) \<Rightarrow> (nat \<Rightarrow> nat \<Rightarrow> double)
     \<Rightarrow> mat list \<Rightarrow> svd \<Rightarrow> error + svd" where
  "fit_restarts cor junk losses0 u_init s =
     (case restarts_loop cor junk losses0 0 u_init s (initial_best s) of
        Inl e \<Rightarrow> Inl e
      | Inr (s', b) \<Rightarrow>
          if int (best_model s') \<noteq> int (length u_init) - 1 then
            Inr (s'\<lparr>matrixU := u_best b, matrixV := v_best b,
                    fit_tol := tol_best b, fit_mse := mse_best b\<rparr>)
          else Inr s')"

text \<open>
  A ghost of the loop, not in the source: the states that the restarts leave, one for each
  candidate, in the order of the loop and with the loop's own passing of the state.
\<close>

fun restart_runs ::
  "(double list \<Rightarrow> double list \<Rightarrow> double) \<Rightarrow> (nat \<Rightarrow> nat \<Rightarrow> double) \<Rightarrow> (nat \<Rightarrow> nat \<Rightarrow> double)
     \<Rightarrow> nat \<Rightarrow> mat list \<Rightarrow> svd \<Rightarrow> best \<Rightarrow> error + svd list" where
  "restart_runs cor junk losses0 i [] s b = Inr []"
| "restart_runs cor junk losses0 i (u_i # us) s b =
     (case restart cor (junk i) (losses0 i) u_i s of
        Inl e \<Rightarrow> Inl e
      | Inr s' \<Rightarrow>
          (case (if i = 0 \<or> fit_mse s' < mse_best b then
                   restart_runs cor junk losses0 (Suc i) us (s'\<lparr>best_model := i\<rparr>)
                     \<lparr>u_best = matrixU s', v_best = matrixV s',
                      tol_best = fit_tol s', mse_best = fit_mse s'\<rparr>
                 else restart_runs cor junk losses0 (Suc i) us s' b) of
             Inl e \<Rightarrow> Inl e
           | Inr rs \<Rightarrow> Inr (s' # rs)))"

text \<open>
  The spec's words for the choice: the index of the first strict minimum of a list of
  mean squared errors. The chosen entry is at most every entry, and below every earlier
  one; the comparisons are those of doubles, so NaN is no minimum.
\<close>

definition is_first_min :: "double list \<Rightarrow> nat \<Rightarrow> bool" where
  "is_first_min ms i =
     (i < length ms \<and> list_all (\<lambda>j. ms ! i \<le> ms ! j) [0..<length ms]
      \<and> list_all (\<lambda>j. ms ! i < ms ! j) [0..<i])"

definition same_fit :: "svd \<Rightarrow> svd \<Rightarrow> bool" where
  \<comment> \<open>the stored U, V, tolerance and mean squared error agree\<close>
  "same_fit s r =
     (matrixU s = matrixU r \<and> matrixV s = matrixV r \<and> fit_tol s = fit_tol r
      \<and> fit_mse s = fit_mse r)"

definition best_inv :: "svd list \<Rightarrow> svd \<Rightarrow> best \<Rightarrow> bool" where
  \<comment> \<open>the invariant of the loop of \<^verbatim>\<open>fit_restarts\<close>, \<open>rs\<close> the runs so far\<close>
  "best_inv rs s b =
     (best_model s < length rs
      \<and> (NaN \<notin> set (map fit_mse rs) \<longrightarrow> is_first_min (map fit_mse rs) (best_model s))
      \<and> u_best b = matrixU (rs ! best_model s) \<and> v_best b = matrixV (rs ! best_model s)
      \<and> tol_best b = fit_tol (rs ! best_model s) \<and> mse_best b = fit_mse (rs ! best_model s)
      \<and> same_fit s (last rs))"

definition col_norm :: "svd \<Rightarrow> nat \<Rightarrow> double" where
  \<comment> \<open>\<^verbatim>\<open>u.col(i).norm()\<close>\<close>
  "col_norm s i = vnorm (nrows (matrixU s)) (col (matrixU s) i)"

subsection \<open>Relations between the states before and after a fitter\<close>

definition fit_rel :: "nat \<Rightarrow> svd \<Rightarrow> svd \<Rightarrow> bool" where
  \<comment> \<open>what \<open>n\<close> fitters in a row, from \<open>s\<close> to \<open>s'\<close>, keep and count\<close>
  "fit_rel n s s' =
     (maxit s' = maxit s \<and> tol s' = tol s \<and> L1 s' = L1 s \<and> matrixA s' = matrixA s
      \<and> mask s' = mask s \<and> mask_zeros s' = mask_zeros s \<and> mask_matrix s' = mask_matrix s
      \<and> vectorD s' = vectorD s \<and> best_model s' = best_model s \<and> fit_mse s' = fit_mse s
      \<and> nrows (matrixU s') = nrows (matrixU s) \<and> ncols (matrixU s') = ncols (matrixU s)
      \<and> nrows (matrixV s') = nrows (matrixV s) \<and> ncols (matrixV s') = ncols (matrixV s)
      \<and> fit_iter s \<le> fit_iter s' \<and> fit_iter s' \<le> max (fit_iter s) (maxit s)
      \<and> als_steps s \<le> als_steps s'
      \<and> als_steps s' \<le> als_steps s + (fit_iter s' - fit_iter s) + n
      \<and> (maxit s \<le> fit_iter s \<longrightarrow> als_steps s' = als_steps s \<and> fit_iter s' = fit_iter s))"

definition step_rel :: "svd \<Rightarrow> svd \<Rightarrow> bool" where
  \<comment> \<open>one execution of a loop body, from \<open>s\<close> to \<open>s'\<close>\<close>
  "step_rel s s' = (fit_rel 0 (s\<lparr>als_steps := Suc (als_steps s)\<rparr>) s' \<and> fit_iter s' = fit_iter s)"

definition diag_rel :: "svd \<Rightarrow> svd \<Rightarrow> bool" where
  \<comment> \<open>what the second loop of \<^verbatim>\<open>fit\<close> keeps\<close>
  "diag_rel s s' =
     (maxit s' = maxit s \<and> tol s' = tol s \<and> L1 s' = L1 s \<and> matrixA s' = matrixA s
      \<and> mask s' = mask s \<and> mask_zeros s' = mask_zeros s \<and> mask_matrix s' = mask_matrix s
      \<and> best_model s' = best_model s \<and> fit_mse s' = fit_mse s \<and> fit_tol s' = fit_tol s
      \<and> nrows (matrixU s') = nrows (matrixU s) \<and> ncols (matrixU s') = ncols (matrixU s)
      \<and> matrixV s' = matrixV s \<and> length (vectorD s') = length (vectorD s)
      \<and> fit_iter s' = fit_iter s \<and> als_steps s' = als_steps s)"

subsection \<open>The mean squared errors, in the spec's words\<close>

text \<open>
  The spec has \<open>mse()\<close>, with no masking, sum \<open>(reconstruction(i,j) - A(i,j))^2\<close> over all
  entries of A, an entry that a sparse A does not store counting as 0, and divide by
  \<open>rows(V) * cols(U)\<close>; and \<open>mse_masked()\<close> sum the same over the masked entries and
  divide by their number. The reconstruction is left open here: it is a parameter, a
  real number for each entry.
\<close>

definition sp_value :: "spmat \<Rightarrow> nat \<Rightarrow> nat \<Rightarrow> double" where
  "sp_value A r c = (case map_of (sp_col A ! c) r of None \<Rightarrow> 0 | Some x \<Rightarrow> x)"

fun entryT :: "matrixT \<Rightarrow> nat \<Rightarrow> nat \<Rightarrow> double" where
  "entryT (Dense A) r c = ent A r c"
| "entryT (Sparse A) r c = sp_value A r c"

definition mse_claimed :: "(nat \<Rightarrow> nat \<Rightarrow> real) \<Rightarrow> svd \<Rightarrow> double" where
  "mse_claimed recon s =
     sum_list (map (\<lambda>c. sum_list (map (\<lambda>r. (Fin (recon r c) - entryT (matrixA s) r c)\<^sup>2)
                                    [0..<rowsT (matrixA s)]))
                 [0..<colsT (matrixA s)])
       / Fin (real (nrows (matrixV s) * ncols (matrixU s)))"

definition mse_masked_claimed :: "(nat \<Rightarrow> nat \<Rightarrow> real) \<Rightarrow> svd \<Rightarrow> double" where
  "mse_masked_claimed recon s =
     sum_list (map (\<lambda>c. sum_list (map (\<lambda>r. (Fin (recon r c) - entryT (matrixA s) r c)\<^sup>2)
                                    (InnerIndices (mask_matrix s) c)))
                 [0..<sp_cols (mask_matrix s)])
       / Fin (real (nnz (mask_matrix s)))"

subsection \<open>The deflation of the rank two fitter, in the spec's words\<close>

text \<open>
  The spec has each entry of the V update lose the projection onto column 0 of V, with
  the coefficient \<open>dot(U column 1, U column 0) + eps\<close>, and each entry of the U update the
  projection onto column 0 of U, with the coefficient \<open>dot(V column 1, V column 0) + eps\<close>.
\<close>

definition rank_two_v_claimed :: "mat \<Rightarrow> svd \<Rightarrow> nat \<Rightarrow> double" where
  "rank_two_v_claimed A s i =
     (let U = matrixU s; V = matrixV s;
          a0 = dot (nrows U) (col U 1) (col U 0) + DIV_OFFSET;
          a1 = dot (nrows U) (col U 1) (col U 1) + DIV_OFFSET
      in penalty (snd (L1 s)) (dot (nrows U) (col U 1) (col A i) - a0 * ent V i 0) / a1)"

definition rank_two_u_claimed :: "mat \<Rightarrow> svd \<Rightarrow> mat \<Rightarrow> nat \<Rightarrow> double" where
  "rank_two_u_claimed A s V2 i =
     (let U = matrixU s;
          a0 = dot (nrows V2) (col V2 1) (col V2 0) + DIV_OFFSET;
          a1 = dot (nrows V2) (col V2 1) (col V2 1) + DIV_OFFSET
      in penalty (fst (L1 s)) (dot (nrows V2) (col V2 1) (row A i) - a0 * ent U i 0) / a1)"

subsection \<open>One iteration on a matrix of one entry\<close>

text \<open>
  For A = (a) and a first column of U that is (x), without penalties, one iteration of the
  rank one fitter leaves \<open>scalar_v x a\<close> in V and divides \<open>scalar_u x a\<close> by its scaled
  norm for U. These are closed forms for the proofs, not part of the source.
\<close>

definition unit_scalar :: "real \<Rightarrow> real" where
  "unit_scalar v = v / (\<bar>v\<bar> + eps)"

definition scalar_v :: "real \<Rightarrow> real \<Rightarrow> real" where
  "scalar_v x a = unit_scalar (x * a / (x * x + eps))"

definition scalar_u :: "real \<Rightarrow> real \<Rightarrow> real" where
  "scalar_u x a = scalar_v x a * a / (scalar_v x a * scalar_v x a + eps)"

subsection \<open>Concrete inputs\<close>

definition cor0 :: "double list \<Rightarrow> double list \<Rightarrow> double" where
  \<comment> \<open>a correlation helper that finds no correlation\<close>
  "cor0 x y = 0"

definition cor1 :: "double list \<Rightarrow> double list \<Rightarrow> double" where
  \<comment> \<open>a correlation helper that finds full correlation\<close>
  "cor1 x y = 1"

definition junk0 :: "nat \<Rightarrow> double" where
  "junk0 k = 0"

definition one_by_one :: "double \<Rightarrow> mat" where
  "one_by_one x = \<lparr>nrows = 1, ncols = 1, ent = (\<lambda>r c. x)\<rparr>"

definition one_by_two :: "double \<Rightarrow> double \<Rightarrow> mat" where
  "one_by_two x y = \<lparr>nrows = 1, ncols = 2, ent = (\<lambda>r c. if c = 0 then x else y)\<rparr>"


definition ones_two_by_one :: mat where
  "ones_two_by_one = \<lparr>nrows = 2, ncols = 1, ent = (\<lambda>r c. 1)\<rparr>"

definition thin_state :: "matrixT \<Rightarrow> svd" where
  \<comment> \<open>rank one factors of ones for a matrix of two rows and two columns\<close>
  "thin_state M =
     \<lparr>matrixA = M, mask_matrix = empty_spmat,
      matrixU = ones_two_by_one, matrixV = ones_two_by_one,
      vectorD = [1], fit_tol = - 1, fit_mse = 0, fit_iter = 0, best_model = 0,
      mask = False, mask_zeros = False, symmetric = False,
      maxit = 100, L1 = (0, 0), tol = Fin (1 / 10 ^ 4), als_steps = 0\<rparr>"

definition corner :: "(nat \<times> double) list \<Rightarrow> matrixT" where
  \<comment> \<open>a sparse matrix with the entry 1 at (0,0) and a given second column\<close>
  "corner c = Sparse \<lparr>sp_rows = 2, sp_cols = 2, sp_col = [[(0, 1)], c]\<rparr>"

definition dense_corner :: "double \<Rightarrow> matrixT" where
  \<comment> \<open>a dense matrix with the entry 1 at (0,0), a given entry at (0,1) and zeros below\<close>
  "dense_corner x =
     Dense \<lparr>nrows = 2, ncols = 2,
            ent = (\<lambda>r c. if r = 0 then (if c = 0 then 1 else x) else 0)\<rparr>"

definition top_row_mask :: spmat where
  \<comment> \<open>the mask matrix that masks (0,0) and (0,1)\<close>
  "top_row_mask = \<lparr>sp_rows = 2, sp_cols = 2, sp_col = [[(0, 1)], [(0, 1)]]\<rparr>"

definition masked_state :: "matrixT \<Rightarrow> svd" where
  "masked_state M = (thin_state M)\<lparr>mask := True, mask_matrix := top_row_mask\<rparr>"

definition one_entry_inv :: "double \<Rightarrow> svd \<Rightarrow> bool" where
  \<comment> \<open>what the runs of \<^verbatim>\<open>fit_restarts\<close> on A = (a) keep\<close>
  "one_entry_inv a s =
     (matrixA s = Dense (one_by_one a)
      \<and> nrows (matrixV s) = Suc 0 \<and> ncols (matrixV s) = Suc 0 \<and> vectorD s \<noteq> []
      \<and> L1 s = (0, 0) \<and> 0 < maxit s \<and> 0 < tol s \<and> \<not> mask s \<and> \<not> mask_zeros s)"

definition restart_state :: svd where
  \<comment> \<open>A = (3), the defaults of the class for everything else\<close>
  "restart_state =
     \<lparr>matrixA = Dense (one_by_one 3), mask_matrix = empty_spmat,
      matrixU = one_by_one 1, matrixV = one_by_one 0,
      vectorD = [1], fit_tol = - 1, fit_mse = 0, fit_iter = 0, best_model = 0,
      mask = False, mask_zeros = False, symmetric = True,
      maxit = 100, L1 = (0, 0), tol = Fin (1 / 10 ^ 4), als_steps = 0\<rparr>"

definition candidates :: "mat list" where
  "candidates = [one_by_one 2, one_by_one 1, one_by_one 1, one_by_one 3]"

definition nan_candidates :: "mat list" where
  "nan_candidates = [one_by_one 0, one_by_one 1]"

definition wide_candidates :: "mat list" where
  "wide_candidates = [one_by_one 0, one_by_two 1 2]"

definition no_junk :: "nat \<Rightarrow> nat \<Rightarrow> double" where
  \<comment> \<open>memory that holds zeros where it is not initialised\<close>
  "no_junk i k = 0"

definition zero_state :: svd where
  \<comment> \<open>A = (0), U = (1), the defaults of the class for everything else\<close>
  "zero_state =
     \<lparr>matrixA = Dense (one_by_one 0), mask_matrix = empty_spmat,
      matrixU = one_by_one 1, matrixV = one_by_one 0,
      vectorD = [1], fit_tol = - 1, fit_mse = 0, fit_iter = 0, best_model = 0,
      mask = False, mask_zeros = False, symmetric = True,
      maxit = 100, L1 = (0, 0), tol = Fin (1 / 10 ^ 4), als_steps = 0\<rparr>"


definition pair_state :: svd where
  \<comment> \<open>A = (3), U = (1 2), two ranks, one iteration allowed\<close>
  "pair_state =
     \<lparr>matrixA = Dense (one_by_one 3), mask_matrix = empty_spmat,
      matrixU = one_by_two 1 2, matrixV = one_by_two 0 0,
      vectorD = [1, 1], fit_tol = - 1, fit_mse = 0, fit_iter = 0, best_model = 0,
      mask = False, mask_zeros = False, symmetric = True,
      maxit = 1, L1 = (0, 0), tol = Fin (1 / 10 ^ 4), als_steps = 0\<rparr>"

definition example_state :: svd where
  "example_state =
     \<lparr>matrixA = Dense \<lparr>nrows = 1, ncols = 1, ent = (\<lambda>r c. 3)\<rparr>,
      mask_matrix = empty_spmat,
      matrixU = \<lparr>nrows = 1, ncols = 1, ent = (\<lambda>r c. 1)\<rparr>,
      matrixV = \<lparr>nrows = 1, ncols = 1, ent = (\<lambda>r c. 0)\<rparr>,
      vectorD = [1], fit_tol = - 1, fit_mse = 0, fit_iter = 0, best_model = 0,
      mask = False, mask_zeros = False, symmetric = True,
      maxit = 100, L1 = (0, 0), tol = Fin (1 / 10 ^ 4), als_steps = 0\<rparr>"

section \<open>The arithmetic of doubles\<close>

lemma zero_Fin [simp]: "(0::double) = Fin 0"
  by (simp add: zero_double_def)

lemma one_Fin [simp]: "(1::double) = Fin 1"
  by (simp add: one_double_def)

lemma numeral_Fin [simp]: "(numeral n :: double) = Fin (numeral n)"
proof (induction n)
  case One
  show ?case by (simp only: numeral_One one_double_def)
next
  case (Bit0 n)
  show ?case by (simp only: numeral_Bit0 Bit0 plus_double.simps)
next
  case (Bit1 n)
  show ?case by (simp only: numeral_Bit1 Bit1 plus_double.simps one_double_def)
qed

lemma add_Fin_0 [simp]: "x + Fin 0 = x" "Fin 0 + x = x"
  by (cases x; simp)+

lemma mult_Fin_1 [simp]: "x * Fin 1 = x" "Fin 1 * x = x"
  by (cases x; simp add: signed_inf_def)+

lemma divide_Fin_1 [simp]: "x / Fin 1 = x"
  by (cases x) (simp_all add: signed_inf_def)

lemma minus_Fin [simp]: "Fin a - Fin b = Fin (a - b)"
  by (simp add: minus_double_def)

lemma power2_double: "(x::double)\<^sup>2 = x * x"
  by (cases x) (simp_all add: numeral_2_eq_2 signed_inf_def)

lemma power2_Fin [simp]: "(Fin a)\<^sup>2 = Fin (a\<^sup>2)"
  by (simp add: power2_double power2_eq_square)


lemma dsqrt_square: "dsqrt (x * x) = \<bar>x\<bar>"
  by (cases x) (simp_all add: signed_inf_def)

lemma less_eq_Fin [simp]: "Fin a \<le> Fin b \<longleftrightarrow> a \<le> b"
  by (auto simp: less_eq_double_def)

lemma eps_pos: "0 < eps"
  by (simp add: eps_def)

section \<open>What the fitters keep and count\<close>

declare fit_rank_one_loop.simps [simp del] fit_rank_two_loop.simps [simp del]
  fit_rank_k_loop.simps [simp del]

lemma set_col_shape [simp]: "nrows (set_col m c f) = nrows m" "ncols (set_col m c f) = ncols m"
  by (simp_all add: set_col_def)

lemma unit_col_shape [simp]: "nrows (unit_col m c) = nrows m" "ncols (unit_col m c) = ncols m"
  by (simp_all add: unit_col_def)

lemma scale_col_shape [simp]: "nrows (scale_col m c d) = nrows m" "ncols (scale_col m c d) = ncols m"
  by (simp_all add: scale_col_def)

lemma update_shapes [simp]:
  "nrows (rank_one_v_update A s) = nrows (matrixV s)" "ncols (rank_one_v_update A s) = ncols (matrixV s)"
  "nrows (rank_one_u_update A s V2) = nrows (matrixU s)" "ncols (rank_one_u_update A s V2) = ncols (matrixU s)"
  "nrows (rank_two_v_update A s) = nrows (matrixV s)" "ncols (rank_two_v_update A s) = ncols (matrixV s)"
  "nrows (rank_two_u_update A s V2) = nrows (matrixU s)" "ncols (rank_two_u_update A s V2) = ncols (matrixU s)"
  "nrows (rank_k_v_update A k s) = nrows (matrixV s)" "ncols (rank_k_v_update A k s) = ncols (matrixV s)"
  "nrows (rank_k_u_update A k s V2) = nrows (matrixU s)" "ncols (rank_k_u_update A k s V2) = ncols (matrixU s)"
  by (simp_all add: rank_one_v_update_def rank_one_u_update_def rank_two_v_update_def
        rank_two_u_update_def rank_k_v_update_def rank_k_u_update_def Let_def)

lemma rank_one_iteration_rel:
  "rank_one_iteration cor A s = Inr (s', d) \<Longrightarrow> step_rel s s'"
  by (auto simp: rank_one_iteration_def Let_def step_rel_def fit_rel_def split: if_splits)

lemma rank_two_iteration_rel:
  "rank_two_iteration cor A s = Inr (s', d) \<Longrightarrow> step_rel s s'"
  by (auto simp: rank_two_iteration_def Let_def step_rel_def fit_rel_def split: if_splits)

lemma rank_k_iteration_rel:
  "rank_k_iteration cor A k s = Inr (s', d) \<Longrightarrow> step_rel s s'"
  by (auto simp: rank_k_iteration_def Let_def step_rel_def fit_rel_def split: if_splits)

lemma fit_rel_refl: "fit_rel n s s"
  by (simp add: fit_rel_def)

lemma step_break: "step_rel s s' \<Longrightarrow> fit_iter s < maxit s \<Longrightarrow> fit_rel 1 s s'"
  by (auto simp: step_rel_def fit_rel_def)

lemma step_continue:
  "step_rel s s' \<Longrightarrow> fit_iter s < maxit s \<Longrightarrow> fit_rel 1 (s'\<lparr>fit_iter := Suc (fit_iter s')\<rparr>) s''
   \<Longrightarrow> fit_rel 1 s s''"
  by (auto simp: step_rel_def fit_rel_def max_def split: if_splits)

lemma fit_rank_one_loop_rel:
  "fit_rank_one_loop cor A s d = Inr (s', d') \<Longrightarrow> fit_rel 1 s s'"
proof (induction cor A s d rule: fit_rank_one_loop.induct)
  case (1 cor A s d)
  show ?case
  proof (cases "fit_iter s < maxit s")
    case False
    with "1.prems" show ?thesis
      by (simp add: fit_rank_one_loop.simps [of cor A s d] fit_rel_refl)
  next
    case True
    from True "1.prems" obtain s1 d1 where it: "rank_one_iteration cor A s = Inr (s1, d1)"
      by (auto simp: fit_rank_one_loop.simps [of cor A s d] split: sum.splits)
    have st: "step_rel s s1" using it by (rule rank_one_iteration_rel)
    show ?thesis
    proof (cases "fit_tol s1 < tol s1")
      case brk: True
      with True it "1.prems" have "s' = s1"
        by (simp add: fit_rank_one_loop.simps [of cor A s d])
      with step_break [OF st True] show ?thesis by simp
    next
      case cont: False
      with True it "1.prems"
      have "fit_rank_one_loop cor A (s1\<lparr>fit_iter := Suc (fit_iter s1)\<rparr>) d1 = Inr (s', d')"
        by (simp add: fit_rank_one_loop.simps [of cor A s d])
      with "1.IH" [OF True it refl cont]
      have "fit_rel 1 (s1\<lparr>fit_iter := Suc (fit_iter s1)\<rparr>) s'" by simp
      with st True show ?thesis by (rule step_continue)
    qed
  qed
qed

lemma fit_rank_two_loop_rel:
  "fit_rank_two_loop cor A s d = Inr (s', d') \<Longrightarrow> fit_rel 1 s s'"
proof (induction cor A s d rule: fit_rank_two_loop.induct)
  case (1 cor A s d)
  show ?case
  proof (cases "fit_iter s < maxit s")
    case False
    with "1.prems" show ?thesis
      by (simp add: fit_rank_two_loop.simps [of cor A s d] fit_rel_refl)
  next
    case True
    from True "1.prems" obtain s1 d1 where it: "rank_two_iteration cor A s = Inr (s1, d1)"
      by (auto simp: fit_rank_two_loop.simps [of cor A s d] split: sum.splits)
    have st: "step_rel s s1" using it by (rule rank_two_iteration_rel)
    show ?thesis
    proof (cases "fit_tol s1 < tol s1")
      case brk: True
      with True it "1.prems" have "s' = s1"
        by (simp add: fit_rank_two_loop.simps [of cor A s d])
      with step_break [OF st True] show ?thesis by simp
    next
      case cont: False
      with True it "1.prems"
      have "fit_rank_two_loop cor A (s1\<lparr>fit_iter := Suc (fit_iter s1)\<rparr>) d1 = Inr (s', d')"
        by (simp add: fit_rank_two_loop.simps [of cor A s d])
      with "1.IH" [OF True it refl cont]
      have "fit_rel 1 (s1\<lparr>fit_iter := Suc (fit_iter s1)\<rparr>) s'" by simp
      with st True show ?thesis by (rule step_continue)
    qed
  qed
qed

lemma fit_rank_k_loop_rel:
  "fit_rank_k_loop cor A k s d = Inr (s', d') \<Longrightarrow> fit_rel 1 s s'"
proof (induction cor A k s d rule: fit_rank_k_loop.induct)
  case (1 cor A k s d)
  show ?case
  proof (cases "fit_iter s < maxit s")
    case False
    with "1.prems" show ?thesis
      by (simp add: fit_rank_k_loop.simps [of cor A k s d] fit_rel_refl)
  next
    case True
    from True "1.prems" obtain s1 d1 where it: "rank_k_iteration cor A k s = Inr (s1, d1)"
      by (auto simp: fit_rank_k_loop.simps [of cor A k s d] split: sum.splits)
    have st: "step_rel s s1" using it by (rule rank_k_iteration_rel)
    show ?thesis
    proof (cases "fit_tol s1 < tol s1")
      case brk: True
      with True it "1.prems" have "s' = s1"
        by (simp add: fit_rank_k_loop.simps [of cor A k s d])
      with step_break [OF st True] show ?thesis by simp
    next
      case cont: False
      with True it "1.prems"
      have "fit_rank_k_loop cor A k (s1\<lparr>fit_iter := Suc (fit_iter s1)\<rparr>) d1 = Inr (s', d')"
        by (simp add: fit_rank_k_loop.simps [of cor A k s d])
      with "1.IH" [OF True it refl cont]
      have "fit_rel 1 (s1\<lparr>fit_iter := Suc (fit_iter s1)\<rparr>) s'" by simp
      with st True show ?thesis by (rule step_continue)
    qed
  qed
qed

lemma fit_rel_new_U:
  "fit_rel n s s' \<Longrightarrow> nrows m = nrows (matrixU s') \<Longrightarrow> ncols m = ncols (matrixU s')
   \<Longrightarrow> fit_rel n s (s'\<lparr>matrixU := m\<rparr>)"
  unfolding fit_rel_def by auto

lemma fit_rank_one_rel: "fit_rank_one cor d0 s = Inr s' \<Longrightarrow> fit_rel 1 s s'"
  by (auto simp: fit_rank_one_def split: matrixT.splits sum.splits if_splits
        dest!: fit_rank_one_loop_rel intro!: fit_rel_new_U)

lemma fit_rank_two_rel: "fit_rank_two cor d0 s = Inr s' \<Longrightarrow> fit_rel 1 s s'"
  by (auto simp: fit_rank_two_def split: matrixT.splits sum.splits if_splits
        dest!: fit_rank_two_loop_rel intro!: fit_rel_new_U)

lemma fit_rank_k_rel: "fit_rank_k cor d0 k s = Inr s' \<Longrightarrow> fit_rel 1 s s'"
  by (auto simp: fit_rank_k_def split: matrixT.splits sum.splits if_splits
        dest!: fit_rank_k_loop_rel intro!: fit_rel_new_U)

lemma fit_rel_trans: "fit_rel n s s1 \<Longrightarrow> fit_rel m s1 s2 \<Longrightarrow> fit_rel (n + m) s s2"
  unfolding fit_rel_def by (auto simp: max_def split: if_splits)

lemma fit_ranks_rel: "fit_ranks cor junk ks s = Inr s' \<Longrightarrow> fit_rel (length ks) s s'"
proof (induction ks arbitrary: s)
  case Nil
  then show ?case by (simp add: fit_rel_refl)
next
  case (Cons k ks)
  from Cons.prems obtain s1 where
    one: "(if k = 0 then fit_rank_one cor (junk k) s
           else if k = 1 then fit_rank_two cor (junk k) s
           else fit_rank_k cor (junk k) k s) = Inr s1"
    and rest: "fit_ranks cor junk ks s1 = Inr s'"
    by (auto split: sum.splits)
  from one have "fit_rel 1 s s1"
    by (auto split: if_splits dest: fit_rank_one_rel fit_rank_two_rel fit_rank_k_rel)
  from fit_rel_trans [OF this Cons.IH [OF rest]] show ?case by simp
qed

lemma fit_ranks_append:
  "fit_ranks cor junk (ks1 @ ks2) s =
     (case fit_ranks cor junk ks1 s of Inl e \<Rightarrow> Inl e | Inr s1 \<Rightarrow> fit_ranks cor junk ks2 s1)"
  by (induction ks1 arbitrary: s) (auto split: sum.splits)

lemma calc_diagonal_rel: "calc_diagonal is s = Inr s' \<Longrightarrow> diag_rel s s'"
proof (induction "is" arbitrary: s)
  case Nil
  then show ?case by (simp add: diag_rel_def)
next
  case (Cons i "is")
  from Cons.prems have
    "calc_diagonal is
       (s\<lparr>vectorD := (vectorD s)[i := vnorm (nrows (matrixU s)) (col (matrixU s) i)],
          matrixU := set_col (matrixU s) i
             (\<lambda>r. ent (matrixU s) r i / vnorm (nrows (matrixU s)) (col (matrixU s) i))\<rparr>) = Inr s'"
    by (simp add: Let_def split: if_splits)
  from Cons.IH [OF this] show ?case by (simp add: diag_rel_def)
qed

section \<open>Masking setters\<close>

text \<open>
  C7, as the spec states it: every call of a masking setter fails when a masking mode is
  already active. The code lets a second \<open>maskZeros()\<close> through: its only guard reads
  \<open>mask\<close>, which \<open>maskZeros()\<close> never sets.
\<close>

theorem maskZeros_twice_succeeds:
  "fst (maskZeros (snd (maskZeros example_state))) = None
   \<and> mask_zeros (snd (maskZeros example_state))"
  by (simp add: maskZeros_def example_state_def)

text \<open>
  C7, amended: \<open>maskMatrix(M)\<close> stops when either masking mode is active;
  \<open>maskZeros()\<close> stops when a mask matrix is active, and succeeds, leaving the zero
  masking on, otherwise; a call that stops leaves the masking state as it was.
\<close>

theorem masking_setters_exclusive:
  "(mask s \<or> mask_zeros s \<longrightarrow>
      (\<exists>e. fst (maskMatrix isSym m s) = Some e \<and> is_stop e))
   \<and> (mask s \<longrightarrow> fst (maskZeros s) = Some MaskAlreadySpecified)
   \<and> (\<not> mask s \<longrightarrow> fst (maskZeros s) = None \<and> mask_zeros (snd (maskZeros s))
        \<and> \<not> mask (snd (maskZeros s)))
   \<and> (fst (maskMatrix isSym m s) \<noteq> None \<longrightarrow>
        masking_state (snd (maskMatrix isSym m s)) = masking_state s)
   \<and> (fst (maskZeros s) \<noteq> None \<longrightarrow>
        masking_state (snd (maskZeros s)) = masking_state s)"
  by (simp add: maskMatrix_def maskZeros_def is_stop_def masking_state_def)

theorem masking_setters_exclusive_witness:
  "mask (snd (maskMatrix (\<lambda>m. True) \<lparr>sp_rows = 1, sp_cols = 1, sp_col = [[(0, 1)]]\<rparr>
                example_state))
   \<and> fst (maskZeros (snd (maskMatrix (\<lambda>m. True)
                \<lparr>sp_rows = 1, sp_cols = 1, sp_col = [[(0, 1)]]\<rparr> example_state)))
       = Some MaskAlreadySpecified
   \<and> \<not> mask (snd (maskZeros example_state))
   \<and> mask_zeros (snd (maskZeros example_state))
   \<and> fst (maskMatrix (\<lambda>m. True) \<lparr>sp_rows = 1, sp_cols = 1, sp_col = [[(0, 1)]]\<rparr>
            (snd (maskZeros example_state))) = Some MaskZerosAlready
   \<and> masking_state (snd (maskMatrix (\<lambda>m. True)
          \<lparr>sp_rows = 1, sp_cols = 1, sp_col = [[(0, 1)]]\<rparr> (snd (maskZeros example_state))))
       = masking_state (snd (maskZeros example_state))"
  using masking_setters_exclusive
          [of "snd (maskMatrix (\<lambda>m. True) \<lparr>sp_rows = 1, sp_cols = 1, sp_col = [[(0, 1)]]\<rparr>
                      example_state)"
              "\<lambda>m. True" "\<lparr>sp_rows = 1, sp_cols = 1, sp_col = [[(0, 1)]]\<rparr>"]
        masking_setters_exclusive
          [of "snd (maskZeros example_state)"
              "\<lambda>m. True" "\<lparr>sp_rows = 1, sp_cols = 1, sp_col = [[(0, 1)]]\<rparr>"]
  by (simp add: maskMatrix_def maskZeros_def example_state_def is_stop_def masking_state_def)


section \<open>The iteration budget of fit\<close>

lemma fit_split:
  assumes "fit cor junk s = Inr s'"
  obtains s2 where "fit_ranks cor junk [0..<ncols (matrixU s)] s = Inr s2"
    and "calc_diagonal [0..<ncols (matrixU s2)] s2 = Inr s'"
  using assms by (auto simp: fit_def split: sum.splits)

lemma fit_rel_counts:
  assumes "fit_rel n s s'"
  shows "maxit s' = maxit s" "fit_iter s \<le> fit_iter s'"
    "fit_iter s' \<le> max (fit_iter s) (maxit s)"
    "als_steps s' \<le> als_steps s + (fit_iter s' - fit_iter s) + n"
    "maxit s \<le> fit_iter s \<longrightarrow> als_steps s' = als_steps s"
  using assms unfolding fit_rel_def by blast+

text \<open>
  C9, amended: within one \<open>fit()\<close> the counter \<open>iter_\<close> is never reset, each fitter
  resumes from the count the one before has left, and the counter stays below the larger
  of its first value and \<open>maxit\<close>. The loop bodies executed in the whole call are at most
  the budget that is left at the start, \<open>maxit - iter_\<close>, and one more for each rank: the
  iteration that ends a fitter with \<open>break\<close> is not counted in \<open>iter_\<close>. Once the counter
  has reached \<open>maxit\<close> after the first \<open>j\<close> ranks, no later fitter executes a loop body.
\<close>

theorem fit_iteration_budget:
  assumes "fit cor junk s = Inr s'"
    and "j \<le> ncols (matrixU s)"
    and "fit_ranks cor junk [0..<j] s = Inr s1"
  shows "fit_iter s \<le> fit_iter s1 \<and> fit_iter s1 \<le> fit_iter s'
       \<and> fit_iter s' \<le> max (fit_iter s) (maxit s)
       \<and> als_steps s' \<le> als_steps s + (maxit s - fit_iter s) + ncols (matrixU s)
       \<and> (maxit s \<le> fit_iter s1 \<longrightarrow> als_steps s' = als_steps s1)"
proof -
  from assms(1) obtain s2 where
    all: "fit_ranks cor junk [0..<ncols (matrixU s)] s = Inr s2"
    and diag: "calc_diagonal [0..<ncols (matrixU s2)] s2 = Inr s'"
    by (rule fit_split)
  have "[0..<ncols (matrixU s)] = [0..<j] @ [j..<ncols (matrixU s)]"
    using upt_add_eq_append [of 0 j "ncols (matrixU s) - j"] assms(2) by simp
  with all assms(3) have rest: "fit_ranks cor junk [j..<ncols (matrixU s)] s1 = Inr s2"
    by (simp add: fit_ranks_append)
  have r0: "fit_rel (ncols (matrixU s)) s s2"
    using fit_ranks_rel [OF all] by simp
  have r1: "fit_rel j s s1"
    using fit_ranks_rel [OF assms(3)] by simp
  have r2: "fit_rel (ncols (matrixU s) - j) s1 s2"
    using fit_ranks_rel [OF rest] by simp
  have d: "diag_rel s2 s'"
    using diag by (rule calc_diagonal_rel)
  note c0 = fit_rel_counts [OF r0]
  note c1 = fit_rel_counts [OF r1]
  note c2 = fit_rel_counts [OF r2]
  have c3: "fit_iter s' = fit_iter s2" "als_steps s' = als_steps s2"
    using d by (simp_all add: diag_rel_def)
  have "fit_iter s2 - fit_iter s \<le> maxit s - fit_iter s"
    using c0(3) by (simp add: max_def split: if_splits)
  with c0(4) have "als_steps s2 \<le> als_steps s + (maxit s - fit_iter s) + ncols (matrixU s)"
    by linarith
  with c0(3) c1(1,2) c2(2,5) c3 show ?thesis by simp
qed

section \<open>The shape checks of fit\_restarts\<close>

lemma fit_keeps:
  assumes "fit cor junk s = Inr s'"
  shows "matrixA s' = matrixA s \<and> nrows (matrixV s') = nrows (matrixV s)
       \<and> best_model s' = best_model s"
proof -
  from assms obtain s2 where
    all: "fit_ranks cor junk [0..<ncols (matrixU s)] s = Inr s2"
    and diag: "calc_diagonal [0..<ncols (matrixU s2)] s2 = Inr s'"
    by (rule fit_split)
  from fit_ranks_rel [OF all] calc_diagonal_rel [OF diag] show ?thesis
    by (simp add: fit_rel_def diag_rel_def)
qed

lemma restart_keeps:
  assumes "restart cor j l u_i s = Inr s'"
  shows "matrixA s' = matrixA s \<and> nrows (matrixV s') = nrows (matrixV s)
       \<and> best_model s' = best_model s"
proof -
  from assms obtain s2 m where
    f: "fit cor j (s\<lparr>matrixU := u_i, fit_tol := 1, fit_iter := 0\<rparr>) = Inr s2"
    and s': "s' = s2\<lparr>fit_mse := m\<rparr>"
    by (auto simp: restart_def Let_def split: if_splits sum.splits)
  from fit_keeps [OF f] s' show ?thesis by simp
qed

lemma rank_iteration_errors:
  "rank_one_iteration cor A s = Inl e \<Longrightarrow> e = OutOfRange"
  "rank_two_iteration cor A s = Inl e \<Longrightarrow> e = OutOfRange"
  "rank_k_iteration cor A k s = Inl e \<Longrightarrow> e = OutOfRange"
  by (auto simp: rank_one_iteration_def rank_two_iteration_def rank_k_iteration_def Let_def
        split: if_splits)

lemma fit_rank_one_loop_errors:
  "fit_rank_one_loop cor A s d = Inl e \<Longrightarrow> e = OutOfRange"
proof (induction cor A s d rule: fit_rank_one_loop.induct)
  case (1 cor A s d)
  show ?case
  proof (cases "fit_iter s < maxit s")
    case False
    with "1.prems" show ?thesis
      by (simp add: fit_rank_one_loop.simps [of cor A s d])
  next
    case True
    show ?thesis
    proof (cases "rank_one_iteration cor A s")
      case (Inl e')
      with True "1.prems" have "e = e'"
        by (simp add: fit_rank_one_loop.simps [of cor A s d])
      with Inl show ?thesis by (simp add: rank_iteration_errors)
    next
      case (Inr p)
      obtain s1 d1 where p: "p = (s1, d1)" by (cases p)
      with Inr have it: "rank_one_iteration cor A s = Inr (s1, d1)" by simp
      show ?thesis
      proof (cases "fit_tol s1 < tol s1")
        case True
        with \<open>fit_iter s < maxit s\<close> it "1.prems" show ?thesis
          by (simp add: fit_rank_one_loop.simps [of cor A s d])
      next
        case False
        with \<open>fit_iter s < maxit s\<close> it "1.prems"
        have "fit_rank_one_loop cor A (s1\<lparr>fit_iter := Suc (fit_iter s1)\<rparr>) d1 = Inl e"
          by (simp add: fit_rank_one_loop.simps [of cor A s d])
        with "1.IH" [OF \<open>fit_iter s < maxit s\<close> it refl False] show ?thesis by simp
      qed
    qed
  qed
qed

lemma fit_rank_two_loop_errors:
  "fit_rank_two_loop cor A s d = Inl e \<Longrightarrow> e = OutOfRange"
proof (induction cor A s d rule: fit_rank_two_loop.induct)
  case (1 cor A s d)
  show ?case
  proof (cases "fit_iter s < maxit s")
    case False
    with "1.prems" show ?thesis
      by (simp add: fit_rank_two_loop.simps [of cor A s d])
  next
    case True
    show ?thesis
    proof (cases "rank_two_iteration cor A s")
      case (Inl e')
      with True "1.prems" have "e = e'"
        by (simp add: fit_rank_two_loop.simps [of cor A s d])
      with Inl show ?thesis by (simp add: rank_iteration_errors)
    next
      case (Inr p)
      obtain s1 d1 where p: "p = (s1, d1)" by (cases p)
      with Inr have it: "rank_two_iteration cor A s = Inr (s1, d1)" by simp
      show ?thesis
      proof (cases "fit_tol s1 < tol s1")
        case True
        with \<open>fit_iter s < maxit s\<close> it "1.prems" show ?thesis
          by (simp add: fit_rank_two_loop.simps [of cor A s d])
      next
        case False
        with \<open>fit_iter s < maxit s\<close> it "1.prems"
        have "fit_rank_two_loop cor A (s1\<lparr>fit_iter := Suc (fit_iter s1)\<rparr>) d1 = Inl e"
          by (simp add: fit_rank_two_loop.simps [of cor A s d])
        with "1.IH" [OF \<open>fit_iter s < maxit s\<close> it refl False] show ?thesis by simp
      qed
    qed
  qed
qed

lemma fit_rank_k_loop_errors:
  "fit_rank_k_loop cor A k s d = Inl e \<Longrightarrow> e = OutOfRange"
proof (induction cor A k s d rule: fit_rank_k_loop.induct)
  case (1 cor A k s d)
  show ?case
  proof (cases "fit_iter s < maxit s")
    case False
    with "1.prems" show ?thesis
      by (simp add: fit_rank_k_loop.simps [of cor A k s d])
  next
    case True
    show ?thesis
    proof (cases "rank_k_iteration cor A k s")
      case (Inl e')
      with True "1.prems" have "e = e'"
        by (simp add: fit_rank_k_loop.simps [of cor A k s d])
      with Inl show ?thesis by (simp add: rank_iteration_errors)
    next
      case (Inr p)
      obtain s1 d1 where p: "p = (s1, d1)" by (cases p)
      with Inr have it: "rank_k_iteration cor A k s = Inr (s1, d1)" by simp
      show ?thesis
      proof (cases "fit_tol s1 < tol s1")
        case True
        with \<open>fit_iter s < maxit s\<close> it "1.prems" show ?thesis
          by (simp add: fit_rank_k_loop.simps [of cor A k s d])
      next
        case False
        with \<open>fit_iter s < maxit s\<close> it "1.prems"
        have "fit_rank_k_loop cor A k (s1\<lparr>fit_iter := Suc (fit_iter s1)\<rparr>) d1 = Inl e"
          by (simp add: fit_rank_k_loop.simps [of cor A k s d])
        with "1.IH" [OF \<open>fit_iter s < maxit s\<close> it refl False] show ?thesis by simp
      qed
    qed
  qed
qed

lemma fitter_errors:
  "fit_rank_one cor d0 s = Inl e \<Longrightarrow> e = OutOfRange \<or> e = NoSparseFitter"
  "fit_rank_two cor d0 s = Inl e \<Longrightarrow> e = OutOfRange \<or> e = NoSparseFitter"
  "fit_rank_k cor d0 k s = Inl e \<Longrightarrow> e = OutOfRange \<or> e = NoSparseFitter"
  by (auto simp: fit_rank_one_def fit_rank_two_def fit_rank_k_def
        split: matrixT.splits sum.splits if_splits
        dest: fit_rank_one_loop_errors fit_rank_two_loop_errors fit_rank_k_loop_errors)

lemma fit_ranks_errors:
  "fit_ranks cor junk ks s = Inl e \<Longrightarrow> e = OutOfRange \<or> e = NoSparseFitter"
proof (induction ks arbitrary: s)
  case Nil
  then show ?case by simp
next
  case (Cons k ks)
  show ?case
  proof (cases "if k = 0 then fit_rank_one cor (junk k) s
                else if k = 1 then fit_rank_two cor (junk k) s
                else fit_rank_k cor (junk k) k s")
    case (Inl e')
    with Cons.prems have "e = e'" by simp
    with Inl show ?thesis by (auto split: if_splits dest: fitter_errors)
  next
    case (Inr s1)
    with Cons.prems have "fit_ranks cor junk ks s1 = Inl e" by simp
    then show ?thesis by (rule Cons.IH)
  qed
qed

lemma calc_diagonal_errors: "calc_diagonal is s = Inl e \<Longrightarrow> e = OutOfRange"
  by (induction "is" arbitrary: s) (auto simp: Let_def split: if_splits)

lemma fit_errors: "fit cor junk s = Inl e \<Longrightarrow> e = OutOfRange \<or> e = NoSparseFitter"
  by (auto simp: fit_def split: sum.splits dest: fit_ranks_errors calc_diagonal_errors)

lemma collect_error: "collect xs = Inl e \<Longrightarrow> Inl e \<in> set xs"
  by (induction xs) (auto split: sum.splits)

lemma loss_errors:
  "dense_loss A s i = Inl e \<Longrightarrow> e = OutOfRange"
  "sparse_loss B s i = Inl e \<Longrightarrow> e = OutOfRange"
  by (auto simp: dense_loss_def sparse_loss_def Let_def split: if_splits)

lemma mse_errors: "mse losses0 s = Inl e \<Longrightarrow> e = OutOfRange"
proof -
  assume a: "mse losses0 s = Inl e"
  let ?f = "case matrixA s of Dense A \<Rightarrow> dense_loss A s | Sparse A \<Rightarrow> sparse_loss A s"
  from a have "collect (map ?f [0..<ncols (matrixV s)]) = Inl e"
    by (auto simp: mse_def Let_def split: sum.splits if_splits)
  from collect_error [OF this] obtain i where "?f i = Inl e" by auto
  then show ?thesis
    by (auto split: matrixT.splits dest: loss_errors)
qed

lemma restart_errors:
  assumes "restart cor j l u_i s = Inl e"
  shows "e = RankNotEqual \<or> e = DimsNotCompatible \<or> e = OutOfRange \<or> e = NoSparseFitter"
  using assms
  by (auto simp: restart_def Let_def split: if_splits sum.splits
        dest: fit_errors mse_errors)

lemma restart_checks:
  assumes "nrows (matrixV s) = colsT (matrixA s)"
    and "nrows u_i = rowsT (matrixA s)"
    and "\<not> (rowsT (matrixA s) = colsT (matrixA s) \<and> ncols u_i = rowsT (matrixA s))"
  shows "restart cor j l u_i s =
           Inl (if rowsT (matrixA s) \<noteq> colsT (matrixA s) then RankNotEqual
                else DimsNotCompatible)"
  using assms by (auto simp: restart_def Let_def)

lemma restarts_loop_checks:
  assumes "nrows (matrixV s) = colsT (matrixA s)"
    and "i < length us"
    and "nrows (us ! i) = rowsT (matrixA s)"
    and "\<not> (rowsT (matrixA s) = colsT (matrixA s) \<and> ncols (us ! i) = rowsT (matrixA s))"
  shows "\<exists>e. restarts_loop cor junk losses0 n us s b = Inl e
             \<and> (e = RankNotEqual \<or> e = DimsNotCompatible
                 \<or> 0 < i \<and> (e = OutOfRange \<or> e = NoSparseFitter))"
  using assms
proof (induction us arbitrary: i n s b)
  case Nil
  then show ?case by simp
next
  case (Cons u_i us)
  show ?case
  proof (cases i)
    case 0
    with Cons.prems restart_checks [of s u_i cor "junk n" "losses0 n"]
    show ?thesis by auto
  next
    case (Suc i')
    show ?thesis
    proof (cases "restart cor (junk n) (losses0 n) u_i s")
      case (Inl e)
      from restart_errors [OF Inl] Inl Suc show ?thesis by auto
    next
      case (Inr s1)
      from restart_keeps [OF Inr] have keep: "matrixA s1 = matrixA s"
        "nrows (matrixV s1) = nrows (matrixV s)" by simp_all
      with Suc Cons.prems have
        p: "i' < length us" "nrows (us ! i') = rowsT (matrixA s1)"
        "\<not> (rowsT (matrixA s1) = colsT (matrixA s1) \<and> ncols (us ! i') = rowsT (matrixA s1))"
        "nrows (matrixV s1) = colsT (matrixA s1)"
        by simp_all
      have a: "\<exists>e. restarts_loop cor junk losses0 (Suc n) us (s1\<lparr>best_model := n\<rparr>) b' = Inl e
                 \<and> (e = RankNotEqual \<or> e = DimsNotCompatible
                     \<or> e = OutOfRange \<or> e = NoSparseFitter)"
        for b'
        using Cons.IH [of "s1\<lparr>best_model := n\<rparr>" i' "Suc n" b'] p by auto
      have c: "\<exists>e. restarts_loop cor junk losses0 (Suc n) us s1 b = Inl e
                 \<and> (e = RankNotEqual \<or> e = DimsNotCompatible
                     \<or> e = OutOfRange \<or> e = NoSparseFitter)"
        using Cons.IH [of s1 i' "Suc n" b] p by auto
      from a c Inr Suc show ?thesis by simp
    qed
  qed
qed

text \<open>
  C10: \<open>fit_restarts\<close> requires \<open>u.rows() = v.rows()\<close> and \<open>u.cols() = A.rows()\<close> of each
  candidate. With V of the shape the constructors give it (one row for each column of A),
  a candidate with as many rows as A is refused by these checks in whatever state the
  restarts before it have left the object, unless A is square and the candidate has as
  many columns as A has rows. So \<open>fit_restarts\<close> ends in an error: one of the two stops of
  the checks, or, at a candidate before this one only, an access out of range or the
  fitter that the sparse matrix type lacks.
\<close>

theorem fit_restarts_shape_check:
  assumes "nrows (matrixV s) = colsT (matrixA s)"
    and "i < length u_init"
    and "nrows (u_init ! i) = rowsT (matrixA s)"
    and "\<not> (rowsT (matrixA s) = colsT (matrixA s) \<and> ncols (u_init ! i) = rowsT (matrixA s))"
  shows "(\<forall>p. matrixA p = matrixA s \<and> nrows (matrixV p) = nrows (matrixV s) \<longrightarrow>
            restart cor (junk i) (losses0 i) (u_init ! i) p
              = Inl (if rowsT (matrixA s) \<noteq> colsT (matrixA s) then RankNotEqual
                     else DimsNotCompatible))
       \<and> (\<exists>e. fit_restarts cor junk losses0 u_init s = Inl e
             \<and> (e = RankNotEqual \<or> e = DimsNotCompatible
                 \<or> 0 < i \<and> (e = OutOfRange \<or> e = NoSparseFitter)))"
proof
  show "\<forall>p. matrixA p = matrixA s \<and> nrows (matrixV p) = nrows (matrixV s) \<longrightarrow>
            restart cor (junk i) (losses0 i) (u_init ! i) p
              = Inl (if rowsT (matrixA s) \<noteq> colsT (matrixA s) then RankNotEqual
                     else DimsNotCompatible)"
  proof (intro allI impI)
    fix p :: svd
    assume p: "matrixA p = matrixA s \<and> nrows (matrixV p) = nrows (matrixV s)"
    with assms have "nrows (matrixV p) = colsT (matrixA p)"
      "nrows (u_init ! i) = rowsT (matrixA p)"
      "\<not> (rowsT (matrixA p) = colsT (matrixA p) \<and> ncols (u_init ! i) = rowsT (matrixA p))"
      by simp_all
    from restart_checks [OF this, of cor "junk i" "losses0 i"] p
    show "restart cor (junk i) (losses0 i) (u_init ! i) p
            = Inl (if rowsT (matrixA s) \<noteq> colsT (matrixA s) then RankNotEqual
                   else DimsNotCompatible)" by simp
  qed
  show "\<exists>e. fit_restarts cor junk losses0 u_init s = Inl e
             \<and> (e = RankNotEqual \<or> e = DimsNotCompatible
                 \<or> 0 < i \<and> (e = OutOfRange \<or> e = NoSparseFitter))"
    using restarts_loop_checks [OF assms, of cor junk losses0 0 "initial_best s"]
    by (auto simp: fit_restarts_def)
qed

section \<open>The diagonal of fit\<close>

lemma ent_set_col:
  "ent (set_col m c f) r c' = (if c' = c \<and> r < nrows m then f r else ent m r c')"
  by (simp add: set_col_def)

lemma dot_cong: "(\<And>i. i < n \<Longrightarrow> x i = x' i \<and> y i = y' i) \<Longrightarrow> dot n x y = dot n x' y'"
  unfolding dot_def by (rule arg_cong [where f = sum_list]) simp

lemma vnorm_cong: "(\<And>i. i < n \<Longrightarrow> x i = x' i) \<Longrightarrow> vnorm n x = vnorm n x'"
  unfolding vnorm_def by (simp cong: dot_cong)

lemma dot_Suc: "dot (Suc n) x y = dot n x y + x n * y n"
  by (simp add: dot_def)








lemma calc_diagonal_keeps_D:
  "calc_diagonal is s = Inr s' \<Longrightarrow> i \<notin> set is \<Longrightarrow> vectorD s' ! i = vectorD s ! i"
proof (induction "is" arbitrary: s)
  case Nil
  then show ?case by simp
next
  case (Cons j js)
  then show ?case by (auto simp: Let_def split: if_splits)
qed

lemma calc_diagonal_result:
  assumes "distinct is"
    and "\<forall>i\<in>set is. i < length (vectorD s)"
  shows "\<exists>s'. calc_diagonal is s = Inr s'
           \<and> nrows (matrixU s') = nrows (matrixU s)
           \<and> (\<forall>i\<in>set is. vectorD s' ! i = col_norm s i
                 \<and> (\<forall>r<nrows (matrixU s).
                       ent (matrixU s') r i = ent (matrixU s) r i / col_norm s i))
           \<and> (\<forall>c r. c \<notin> set is \<longrightarrow> ent (matrixU s') r c = ent (matrixU s) r c)"
  using assms
proof (induction "is" arbitrary: s)
  case Nil
  then show ?case by simp
next
  case (Cons i "is")
  define n where "n = col_norm s i"
  define t where "t = s\<lparr>vectorD := (vectorD s)[i := n],
                         matrixU := set_col (matrixU s) i (\<lambda>r. ent (matrixU s) r i / n)\<rparr>"
  from Cons.prems have len: "i < length (vectorD s)" and notin: "i \<notin> set is"
    by simp_all
  have step: "calc_diagonal (i # is) s = calc_diagonal is t"
    using len by (simp add: Let_def n_def t_def col_norm_def)
  have other: "c \<noteq> i \<Longrightarrow> ent (matrixU t) r c = ent (matrixU s) r c" for c r
    by (simp add: t_def ent_set_col)
  have rows: "nrows (matrixU t) = nrows (matrixU s)"
    by (simp add: t_def)
  have norms: "c \<noteq> i \<Longrightarrow> col_norm t c = col_norm s c" for c
    unfolding col_norm_def rows by (rule vnorm_cong) (simp add: col_def other)
  have pre: "\<forall>j\<in>set is. j < length (vectorD t)"
    using Cons.prems by (simp add: t_def)
  from Cons.prems have "distinct is" by simp
  from Cons.IH [OF this pre] obtain s' where
    run: "calc_diagonal is t = Inr s'"
    and rows': "nrows (matrixU s') = nrows (matrixU t)"
    and fin: "\<forall>j\<in>set is. vectorD s' ! j = col_norm t j
                 \<and> (\<forall>r<nrows (matrixU t).
                       ent (matrixU s') r j = ent (matrixU t) r j / col_norm t j)"
    and kept: "\<forall>c r. c \<notin> set is \<longrightarrow> ent (matrixU s') r c = ent (matrixU t) r c"
    by blast
  have d_i: "vectorD s' ! i = n"
    using calc_diagonal_keeps_D [OF run notin] len by (simp add: t_def)
  have u_i: "ent (matrixU s') r i = ent (matrixU s) r i / n" if "r < nrows (matrixU s)" for r
    using kept notin that by (simp add: t_def ent_set_col)
  have later: "vectorD s' ! j = col_norm s j
        \<and> (\<forall>r<nrows (matrixU s). ent (matrixU s') r j = ent (matrixU s) r j / col_norm s j)"
    if "j \<in> set is" for j
  proof -
    from that notin have "j \<noteq> i" by auto
    with fin that rows show ?thesis by (simp add: norms other)
  qed
  have untouched: "ent (matrixU s') r c = ent (matrixU s) r c" if "c \<notin> set (i # is)" for c r
  proof -
    from that have "c \<notin> set is" "c \<noteq> i" by auto
    with kept other show ?thesis by simp
  qed
  have "calc_diagonal (i # is) s = Inr s'"
    using step run by simp
  moreover have "nrows (matrixU s') = nrows (matrixU s)"
    using rows' rows by simp
  moreover have "\<forall>j\<in>set (i # is). vectorD s' ! j = col_norm s j
        \<and> (\<forall>r<nrows (matrixU s). ent (matrixU s') r j = ent (matrixU s) r j / col_norm s j)"
    using later d_i u_i by (auto simp: n_def)
  moreover have "\<forall>c r. c \<notin> set (i # is) \<longrightarrow> ent (matrixU s') r c = ent (matrixU s) r c"
    using untouched by blast
  ultimately show ?case by blast
qed



section \<open>The choice of fit\_restarts\<close>

lemma double_less_le_trans: "(x::double) < y \<Longrightarrow> y \<le> z \<Longrightarrow> x < z"
  by (cases x; cases y; cases z) (auto simp: less_eq_double_def)

lemma double_less_imp_le: "(x::double) < y \<Longrightarrow> x \<le> y"
  by (simp add: less_eq_double_def)

lemma double_le_refl: "x \<noteq> NaN \<Longrightarrow> (x::double) \<le> x"
  by (simp add: less_eq_double_def)

lemma double_not_less: "x \<noteq> NaN \<Longrightarrow> y \<noteq> NaN \<Longrightarrow> \<not> (x::double) < y \<Longrightarrow> y \<le> x"
  by (cases x; cases y) (auto simp: less_eq_double_def)

lemma is_first_min_iff:
  "is_first_min ms i \<longleftrightarrow>
     i < length ms \<and> (\<forall>j<length ms. ms ! i \<le> ms ! j) \<and> (\<forall>j<i. ms ! i < ms ! j)"
  by (auto simp: is_first_min_def list_all_iff)

lemma is_first_min_new:
  assumes "ms \<noteq> [] \<longrightarrow> is_first_min ms i \<and> m < ms ! i" and "m \<noteq> NaN"
  shows "is_first_min (ms @ [m]) (length ms)"
  unfolding is_first_min_iff
proof (intro conjI allI impI)
  show "length ms < length (ms @ [m])" by simp
next
  fix j assume "j < length (ms @ [m])"
  then consider "j < length ms" | "j = length ms" by fastforce
  then show "(ms @ [m]) ! length ms \<le> (ms @ [m]) ! j"
  proof cases
    case 1
    then have "ms \<noteq> []" by auto
    with assms 1 have "m < ms ! i" "ms ! i \<le> ms ! j"
      by (auto simp: is_first_min_iff)
    then have "m < ms ! j" by (rule double_less_le_trans)
    with 1 show ?thesis by (simp add: nth_append double_less_imp_le)
  next
    case 2
    with assms(2) show ?thesis by (simp add: double_le_refl)
  qed
next
  fix j assume j: "j < length ms"
  then have "ms \<noteq> []" by auto
  with assms j have "m < ms ! i" "ms ! i \<le> ms ! j"
    by (auto simp: is_first_min_iff)
  then have "m < ms ! j" by (rule double_less_le_trans)
  with j show "(ms @ [m]) ! length ms < (ms @ [m]) ! j" by (simp add: nth_append)
qed

lemma is_first_min_keep:
  assumes "is_first_min ms i" and "\<not> m < ms ! i" and "m \<noteq> NaN"
  shows "is_first_min (ms @ [m]) i"
  unfolding is_first_min_iff
proof (intro conjI allI impI)
  from assms(1) show i: "i < length (ms @ [m])" by (simp add: is_first_min_iff)
next
  from assms(1) have i: "i < length ms" and "ms ! i \<le> ms ! i"
    by (simp_all add: is_first_min_iff)
  then have n: "ms ! i \<noteq> NaN" by (auto simp: less_eq_double_def)
  fix j assume "j < length (ms @ [m])"
  then consider "j < length ms" | "j = length ms" by fastforce
  then show "(ms @ [m]) ! i \<le> (ms @ [m]) ! j"
  proof cases
    case 1
    with assms(1) show ?thesis by (simp add: is_first_min_iff nth_append)
  next
    case 2
    from double_not_less [OF assms(3) n assms(2)] 2 i show ?thesis
      by (simp add: nth_append)
  qed
next
  fix j assume "j < i"
  with assms(1) show "(ms @ [m]) ! i < (ms @ [m]) ! j"
    by (simp add: is_first_min_iff nth_append)
qed

lemma restarts_loop_inv:
  assumes "restarts_loop cor junk losses0 (length pre) us s b = Inr (s', b')"
    and "pre \<noteq> [] \<longrightarrow> best_inv pre s b"
  shows "\<exists>rs. restart_runs cor junk losses0 (length pre) us s b = Inr rs
           \<and> length rs = length us
           \<and> (pre @ rs \<noteq> [] \<longrightarrow> best_inv (pre @ rs) s' b')"
  using assms
proof (induction us arbitrary: pre s b)
  case Nil
  then show ?case by simp
next
  case (Cons u_i us)
  let ?i = "length pre"
  from Cons.prems(1) obtain r where r: "restart cor (junk ?i) (losses0 ?i) u_i s = Inr r"
    by (auto split: sum.splits)
  from restart_keeps [OF r] have bm: "best_model r = best_model s" by simp
  show ?case
  proof (cases "?i = 0 \<or> fit_mse r < mse_best b")
    case True
    let ?s = "r\<lparr>best_model := ?i\<rparr>"
    let ?b = "\<lparr>u_best = matrixU r, v_best = matrixV r,
               tol_best = fit_tol r, mse_best = fit_mse r\<rparr>"
    from True r Cons.prems(1)
    have loop: "restarts_loop cor junk losses0 (length (pre @ [r])) us ?s ?b = Inr (s', b')"
      by simp
    have "is_first_min (map fit_mse (pre @ [r])) ?i"
      if clean: "NaN \<notin> set (map fit_mse (pre @ [r]))"
    proof -
      have "map fit_mse pre \<noteq> [] \<longrightarrow>
              is_first_min (map fit_mse pre) (best_model s)
              \<and> fit_mse r < map fit_mse pre ! best_model s"
        using True Cons.prems(2) clean by (auto simp: best_inv_def)
      moreover from clean have "fit_mse r \<noteq> NaN" by auto
      ultimately have "is_first_min (map fit_mse pre @ [fit_mse r]) (length (map fit_mse pre))"
        by (rule is_first_min_new)
      then show ?thesis by simp
    qed
    then have inv: "best_inv (pre @ [r]) ?s ?b"
      by (simp add: best_inv_def same_fit_def)
    from Cons.IH [OF loop] inv obtain rs where
      "restart_runs cor junk losses0 (length (pre @ [r])) us ?s ?b = Inr rs"
      "length rs = length us" "best_inv ((pre @ [r]) @ rs) s' b'"
      by auto
    with True r show ?thesis by auto
  next
    case False
    then have ne: "pre \<noteq> []" and ge: "\<not> fit_mse r < mse_best b" by auto
    from False r Cons.prems(1)
    have loop: "restarts_loop cor junk losses0 (length (pre @ [r])) us r b = Inr (s', b')"
      by simp
    from ne Cons.prems(2) have old: "best_inv pre s b" by simp
    then have lt: "best_model s < length pre"
      by (simp add: best_inv_def)
    from old lt ge have ge': "\<not> fit_mse r < map fit_mse pre ! best_model s"
      by (simp add: best_inv_def)
    have "is_first_min (map fit_mse (pre @ [r])) (best_model s)"
      if clean: "NaN \<notin> set (map fit_mse (pre @ [r]))"
    proof -
      from clean old have "is_first_min (map fit_mse pre) (best_model s)"
        by (auto simp: best_inv_def)
      moreover from clean have "fit_mse r \<noteq> NaN" by auto
      ultimately have "is_first_min (map fit_mse pre @ [fit_mse r]) (best_model s)"
        using ge' by (intro is_first_min_keep)
      then show ?thesis by simp
    qed
    with old lt bm have inv: "best_inv (pre @ [r]) r b"
      by (simp add: best_inv_def same_fit_def nth_append)
    from Cons.IH [OF loop] inv obtain rs where
      "restart_runs cor junk losses0 (length (pre @ [r])) us r b = Inr rs"
      "length rs = length us" "best_inv ((pre @ [r]) @ rs) s' b'"
      by auto
    with False r show ?thesis by auto
  qed
qed

lemma restart_runs_nth:
  assumes "restart_runs cor junk losses0 n us s b = Inr rs" and "i < length rs"
  shows "\<exists>p. restart cor (junk (n + i)) (losses0 (n + i)) (us ! i) p = Inr (rs ! i)"
  using assms
proof (induction us arbitrary: n s b rs i)
  case Nil
  then show ?case by simp
next
  case (Cons u_i us)
  from Cons.prems(1) obtain r rs' where r: "restart cor (junk n) (losses0 n) u_i s = Inr r"
    and rs: "rs = r # rs'"
    and rest: "(if n = 0 \<or> fit_mse r < mse_best b then
                  restart_runs cor junk losses0 (Suc n) us (r\<lparr>best_model := n\<rparr>)
                    \<lparr>u_best = matrixU r, v_best = matrixV r,
                     tol_best = fit_tol r, mse_best = fit_mse r\<rparr>
                else restart_runs cor junk losses0 (Suc n) us r b) = Inr rs'"
    by (auto split: sum.splits)
  show ?case
  proof (cases i)
    case 0
    with r rs show ?thesis by auto
  next
    case (Suc i')
    with Cons.prems(2) rs have i': "i' < length rs'" by simp
    from rest obtain t c where "restart_runs cor junk losses0 (Suc n) us t c = Inr rs'"
      by (auto split: if_splits)
    from Cons.IH [OF this i'] Suc rs show ?thesis by simp
  qed
qed

lemma restart_resets:
  assumes "restart cor j l u_i p = Inr r"
  shows "\<exists>s2. fit cor j (p\<lparr>matrixU := u_i, fit_tol := 1, fit_iter := 0\<rparr>) = Inr s2
           \<and> mse l s2 = Inr (fit_mse r) \<and> r = s2\<lparr>fit_mse := fit_mse r\<rparr>"
  using assms by (auto simp: restart_def Let_def split: if_splits sum.splits)

text \<open>
  C6, amended: when \<open>fit_restarts\<close> returns for a list of candidates that is not empty,
  each candidate has been fitted by a \<open>fit()\<close> that starts with the iteration count 0 and
  the tolerance 1, followed by \<open>mse()\<close>; the stored U, V, tolerance and mean squared
  error are those of the run with the index \<open>best_model()\<close>; and when no run has the mean
  squared error NaN, \<open>best_model()\<close> is the index of the first strict minimum of the mean
  squared errors of these runs. For the errors 5, 3, 3, 4 the first strict minimum is at
  index 1, not at index 2.
\<close>

theorem fit_restarts_best:
  assumes "fit_restarts cor junk losses0 u_init s = Inr s'" and "u_init \<noteq> []"
  shows "\<exists>rs. restart_runs cor junk losses0 0 u_init s (initial_best s) = Inr rs
           \<and> length rs = length u_init
           \<and> (\<forall>i<length rs. \<exists>p s2.
                 fit cor (junk i) (p\<lparr>matrixU := u_init ! i, fit_tol := 1, fit_iter := 0\<rparr>)
                   = Inr s2
                 \<and> mse (losses0 i) s2 = Inr (fit_mse (rs ! i))
                 \<and> rs ! i = s2\<lparr>fit_mse := fit_mse (rs ! i)\<rparr>)
           \<and> best_model s' < length rs
           \<and> same_fit s' (rs ! best_model s')
           \<and> (NaN \<notin> set (map fit_mse rs) \<longrightarrow> is_first_min (map fit_mse rs) (best_model s'))
           \<and> is_first_min [5, 3, 3, 4] 1 \<and> \<not> is_first_min [5, 3, 3, 4] 2"
proof -
  from assms(1) obtain t b where
    loop: "restarts_loop cor junk losses0 (length ([]::svd list)) u_init s (initial_best s)
             = Inr (t, b)"
    and s': "s' = (if int (best_model t) \<noteq> int (length u_init) - 1
                   then t\<lparr>matrixU := u_best b, matrixV := v_best b,
                          fit_tol := tol_best b, fit_mse := mse_best b\<rparr>
                   else t)"
    by (auto simp: fit_restarts_def split: sum.splits if_splits)
  from restarts_loop_inv [OF loop] obtain rs where
    runs: "restart_runs cor junk losses0 0 u_init s (initial_best s) = Inr rs"
    and len: "length rs = length u_init"
    and inv: "rs \<noteq> [] \<longrightarrow> best_inv rs t b"
    by auto
  from len assms(2) have ne: "rs \<noteq> []" by auto
  with inv have inv: "best_inv rs t b" by simp
  have bm: "best_model s' = best_model t" using s' by simp
  have lt: "best_model s' < length rs"
    using inv bm by (simp add: best_inv_def)
  have fm: "NaN \<notin> set (map fit_mse rs) \<longrightarrow> is_first_min (map fit_mse rs) (best_model s')"
    using inv bm by (simp add: best_inv_def)
  have sf: "same_fit s' (rs ! best_model s')"
  proof (cases "int (best_model t) \<noteq> int (length u_init) - 1")
    case True
    with s' inv show ?thesis by (simp add: best_inv_def same_fit_def)
  next
    case False
    with len ne have "best_model t = length rs - 1" by simp
    with ne have "rs ! best_model t = last rs" by (simp add: last_conv_nth)
    with False s' inv show ?thesis by (simp add: best_inv_def)
  qed
  have each: "\<forall>i<length rs. \<exists>p s2.
      fit cor (junk i) (p\<lparr>matrixU := u_init ! i, fit_tol := 1, fit_iter := 0\<rparr>) = Inr s2
      \<and> mse (losses0 i) s2 = Inr (fit_mse (rs ! i))
      \<and> rs ! i = s2\<lparr>fit_mse := fit_mse (rs ! i)\<rparr>"
  proof (intro allI impI)
    fix i assume "i < length rs"
    from restart_runs_nth [OF runs this] obtain p where
      "restart cor (junk i) (losses0 i) (u_init ! i) p = Inr (rs ! i)" by auto
    from restart_resets [OF this] show "\<exists>p s2.
      fit cor (junk i) (p\<lparr>matrixU := u_init ! i, fit_tol := 1, fit_iter := 0\<rparr>) = Inr s2
      \<and> mse (losses0 i) s2 = Inr (fit_mse (rs ! i))
      \<and> rs ! i = s2\<lparr>fit_mse := fit_mse (rs ! i)\<rparr>" by blast
  qed
  have ex: "is_first_min [5, 3, 3, 4] 1 \<and> \<not> is_first_min [5, 3, 3, 4] 2"
    by (simp add: is_first_min_def upt_rec)
  from runs len each lt fm sf ex show ?thesis by blast
qed

section \<open>Running the fitters\<close>

lemma ent_unit_col:
  "ent (unit_col m c) r c' =
     (if c' = c \<and> r < nrows m then ent m r c / (vnorm (nrows m) (col m c) + DIV_OFFSET)
      else ent m r c')"
  by (simp add: unit_col_def ent_set_col)

lemma ent_scale_col:
  "ent (scale_col m c d) r c' = (if c' = c \<and> r < nrows m then ent m r c * d else ent m r c')"
  by (simp add: scale_col_def ent_set_col)

lemma dot_one_row: "dot (Suc 0) x y = x 0 * y 0"
  by (simp add: dot_def)

lemma vnorm_one_row: "vnorm (Suc 0) x = \<bar>x 0\<bar>"
  by (simp add: vnorm_def dot_def dsqrt_square)

lemma step_rel_fields:
  assumes "step_rel s s1"
  shows "maxit s1 = maxit s" "tol s1 = tol s" "L1 s1 = L1 s" "matrixA s1 = matrixA s"
    "vectorD s1 = vectorD s" "fit_iter s1 = fit_iter s" "als_steps s1 = Suc (als_steps s)"
    "nrows (matrixU s1) = nrows (matrixU s)" "ncols (matrixU s1) = ncols (matrixU s)"
    "nrows (matrixV s1) = nrows (matrixV s)" "ncols (matrixV s1) = ncols (matrixV s)"
    "mask s1 = mask s" "mask_zeros s1 = mask_zeros s" "mask_matrix s1 = mask_matrix s"
  using assms unfolding step_rel_def fit_rel_def by auto

lemma rank_one_iteration_result:
  assumes "rank_one_in_range A s"
  obtains s1 d1 where "rank_one_iteration cor A s = Inr (s1, d1)"
    and "matrixV s1 = unit_col (rank_one_v_update A s) 0"
    and "matrixU s1 = unit_col (rank_one_u_update A s (matrixV s1)) 0"
    and "d1 = vnorm (nrows (matrixU s)) (col (rank_one_u_update A s (matrixV s1)) 0)"
    and "fit_tol s1 = cor (col_list (matrixU s1) 0) (col_list (matrixU s) 0)"
    and "step_rel s s1"
proof -
  obtain s1 d1 where it: "rank_one_iteration cor A s = Inr (s1, d1)"
    using assms by (simp add: rank_one_iteration_def Let_def)
  moreover from it assms have "matrixV s1 = unit_col (rank_one_v_update A s) 0"
    "matrixU s1 = unit_col (rank_one_u_update A s (matrixV s1)) 0"
    "d1 = vnorm (nrows (matrixU s)) (col (rank_one_u_update A s (matrixV s1)) 0)"
    "fit_tol s1 = cor (col_list (matrixU s1) 0) (col_list (matrixU s) 0)"
    by (auto simp: rank_one_iteration_def Let_def)
  moreover from it have "step_rel s s1" by (rule rank_one_iteration_rel)
  ultimately show thesis by (rule that)
qed

lemma rank_two_iteration_result:
  assumes "rank_two_in_range A s"
  obtains s1 d1 where "rank_two_iteration cor A s = Inr (s1, d1)"
    and "matrixV s1 = unit_col (rank_two_v_update A s) 1"
    and "matrixU s1 = unit_col (rank_two_u_update A s (matrixV s1)) 1"
    and "d1 = vnorm (nrows (matrixU s)) (col (rank_two_u_update A s (matrixV s1)) 1)"
    and "fit_tol s1 = cor (col_list (matrixU s1) 1) (col_list (matrixU s) 1)"
    and "step_rel s s1"
proof -
  obtain s1 d1 where it: "rank_two_iteration cor A s = Inr (s1, d1)"
    using assms by (simp add: rank_two_iteration_def Let_def)
  moreover from it assms have "matrixV s1 = unit_col (rank_two_v_update A s) 1"
    "matrixU s1 = unit_col (rank_two_u_update A s (matrixV s1)) 1"
    "d1 = vnorm (nrows (matrixU s)) (col (rank_two_u_update A s (matrixV s1)) 1)"
    "fit_tol s1 = cor (col_list (matrixU s1) 1) (col_list (matrixU s) 1)"
    by (auto simp: rank_two_iteration_def Let_def)
  moreover from it have "step_rel s s1" by (rule rank_two_iteration_rel)
  ultimately show thesis by (rule that)
qed


text \<open>A fitter whose first iteration meets the exit criterion.\<close>

lemma fit_rank_one_converged:
  assumes "matrixA s = Dense A" and "fit_iter s < maxit s"
    and "rank_one_iteration cor A s = Inr (s1, d1)" and "fit_tol s1 < tol s1"
  shows "fit_rank_one cor d0 s = Inr (s1\<lparr>matrixU := scale_col (matrixU s1) 0 d1\<rparr>)"
proof -
  from assms(3) have "rank_one_in_range A s"
    by (auto simp: rank_one_iteration_def split: if_splits)
  with step_rel_fields(9) [OF rank_one_iteration_rel [OF assms(3)]]
  have "0 < ncols (matrixU s1)" by (simp add: rank_one_in_range_def Let_def)
  with assms show ?thesis
    by (simp add: fit_rank_one_def fit_rank_one_loop.simps [of cor A s d0])
qed

lemma fit_rank_two_converged:
  assumes "matrixA s = Dense A" and "fit_iter s < maxit s"
    and "rank_two_iteration cor A s = Inr (s1, d1)" and "fit_tol s1 < tol s1"
  shows "fit_rank_two cor d0 s = Inr (s1\<lparr>matrixU := scale_col (matrixU s1) 1 d1\<rparr>)"
proof -
  from assms(3) have "rank_two_in_range A s"
    by (auto simp: rank_two_iteration_def split: if_splits)
  with step_rel_fields(9) [OF rank_two_iteration_rel [OF assms(3)]]
  have "1 < ncols (matrixU s1)" by (simp add: rank_two_in_range_def Let_def)
  with assms show ?thesis
    by (simp add: fit_rank_two_def fit_rank_two_loop.simps [of cor A s d0])
qed


text \<open>A fitter whose only iteration uses up the budget.\<close>

lemma fit_rank_one_exhausted:
  assumes "matrixA s = Dense A" and "fit_iter s < maxit s" and "maxit s \<le> Suc (fit_iter s)"
    and "rank_one_iteration cor A s = Inr (s1, d1)" and "\<not> fit_tol s1 < tol s1"
  shows "fit_rank_one cor d0 s =
           Inr (s1\<lparr>fit_iter := Suc (fit_iter s1), matrixU := scale_col (matrixU s1) 0 d1\<rparr>)"
proof -
  from assms(4) have "rank_one_in_range A s"
    by (auto simp: rank_one_iteration_def split: if_splits)
  with step_rel_fields(9) [OF rank_one_iteration_rel [OF assms(4)]]
  have c: "0 < ncols (matrixU s1)" by (simp add: rank_one_in_range_def Let_def)
  note f = step_rel_fields [OF rank_one_iteration_rel [OF assms(4)]]
  have "fit_rank_one_loop cor A (s1\<lparr>fit_iter := Suc (fit_iter s1)\<rparr>) d1
          = Inr (s1\<lparr>fit_iter := Suc (fit_iter s1)\<rparr>, d1)"
    by (subst fit_rank_one_loop.simps) (use assms(3) f(1,6) in simp)
  with assms c show ?thesis
    by (simp add: fit_rank_one_def fit_rank_one_loop.simps [of cor A s d0])
qed


text \<open>A fitter that finds the budget used up.\<close>

lemma fit_rank_one_idle:
  assumes "matrixA s = Dense A" and "maxit s \<le> fit_iter s" and "0 < ncols (matrixU s)"
  shows "fit_rank_one cor d0 s = Inr (s\<lparr>matrixU := scale_col (matrixU s) 0 d0\<rparr>)"
  using assms by (simp add: fit_rank_one_def fit_rank_one_loop.simps [of cor A s d0])

lemma fit_rank_two_idle:
  assumes "matrixA s = Dense A" and "maxit s \<le> fit_iter s" and "1 < ncols (matrixU s)"
  shows "fit_rank_two cor d0 s = Inr (s\<lparr>matrixU := scale_col (matrixU s) 1 d0\<rparr>)"
  using assms by (simp add: fit_rank_two_def fit_rank_two_loop.simps [of cor A s d0])

text \<open>The entries that the inner loops write, for factors of one row.\<close>

lemma ent_rank_one_v_update:
  assumes "nrows (matrixU s) = Suc 0" and "nrows (matrixV s) = Suc 0"
  shows "ent (rank_one_v_update A s) 0 0 =
           penalty (snd (L1 s)) (ent (matrixU s) 0 0 * ent A 0 0)
             / (ent (matrixU s) 0 0 * ent (matrixU s) 0 0 + DIV_OFFSET)"
  using assms by (simp add: rank_one_v_update_def Let_def ent_set_col dot_one_row col_def)

lemma ent_rank_one_u_update:
  assumes "nrows (matrixU s) = Suc 0" and "nrows V2 = Suc 0"
  shows "ent (rank_one_u_update A s V2) 0 0 =
           penalty (fst (L1 s)) (ent V2 0 0 * ent A 0 0)
             / (ent V2 0 0 * ent V2 0 0 + DIV_OFFSET)"
  using assms
  by (simp add: rank_one_u_update_def Let_def ent_set_col dot_one_row col_def row_def)

lemma ent_rank_two_v_update:
  assumes "nrows (matrixU s) = Suc 0" and "nrows (matrixV s) = Suc 0"
  shows "ent (rank_two_v_update A s) 0 (Suc 0) =
           penalty (snd (L1 s))
             (ent (matrixU s) 0 (Suc 0) * ent A 0 0
              - ent (matrixU s) 0 0
                * (ent (matrixU s) 0 (Suc 0) * ent (matrixU s) 0 0 + DIV_OFFSET))
             / (ent (matrixU s) 0 (Suc 0) * ent (matrixU s) 0 (Suc 0) + DIV_OFFSET)"
    and "ent (rank_two_v_update A s) 0 0 = ent (matrixV s) 0 0"
  using assms by (simp_all add: rank_two_v_update_def Let_def ent_set_col dot_one_row col_def)

lemma ent_rank_two_u_update:
  assumes "nrows (matrixU s) = Suc 0" and "nrows V2 = Suc 0"
  shows "ent (rank_two_u_update A s V2) 0 (Suc 0) =
           penalty (fst (L1 s))
             (ent V2 0 (Suc 0) * ent A 0 0
              - ent V2 0 0 * (ent V2 0 (Suc 0) * ent V2 0 0 + DIV_OFFSET))
             / (ent V2 0 (Suc 0) * ent V2 0 (Suc 0) + DIV_OFFSET)"
    and "ent (rank_two_u_update A s V2) 0 0 = ent (matrixU s) 0 0"
  using assms
  by (simp_all add: rank_two_u_update_def Let_def ent_set_col dot_one_row col_def row_def)



section \<open>The rank k fitter on the first column\<close>

lemma ent_one_by_one: "ent (one_by_one x) r c = x"
  by (simp add: one_by_one_def)








section \<open>A run of two ranks\<close>

lemma DIV_OFFSET_pos: "0 < DIV_OFFSET"
  by (simp add: DIV_OFFSET_def eps_def)

lemma one_by_two_fields:
  "nrows (one_by_two x y) = Suc 0" "ncols (one_by_two x y) = 2"
  "ent (one_by_two x y) r 0 = x" "ent (one_by_two x y) r (Suc 0) = y"
  by (simp_all add: one_by_two_def)

lemma pair_state_fields:
  "matrixA pair_state = Dense (one_by_one (Fin 3))"
  "nrows (matrixU pair_state) = Suc 0" "nrows (matrixV pair_state) = Suc 0"
  "ncols (matrixU pair_state) = 2" "ncols (matrixV pair_state) = 2"
  "ent (matrixU pair_state) 0 0 = 1" "ent (matrixU pair_state) 0 (Suc 0) = 2"
  "L1 pair_state = (0, 0)" "fit_iter pair_state = 0" "maxit pair_state = Suc 0"
  "tol pair_state = Fin (1 / 10 ^ 4)" "vectorD pair_state = [1, 1]" "als_steps pair_state = 0"
  by (simp_all add: pair_state_def one_by_two_def)

text \<open>
  The first fitter of \<open>fit()\<close> on \<open>pair_state\<close>: one iteration, which is not counted in
  \<open>iter_\<close> when it meets the exit criterion.
\<close>

lemma pair_state_rank_one:
  "\<exists>s' p q. fit_rank_one cor d0 pair_state = Inr s'
        \<and> fit_rel 1 pair_state s' \<and> als_steps s' = 1
        \<and> (\<exists>x. fit_tol s' = cor [x] [1])
        \<and> fit_iter s' = (if fit_tol s' < Fin (1 / 10 ^ 4) then 0 else 1)
        \<and> ent (matrixV s') 0 0 = Fin q \<and> 9 / 10 < q \<and> q < 1
        \<and> ent (matrixU s') 0 0 = Fin p \<and> 2 < p \<and> ent (matrixU s') 0 (Suc 0) = 2"
proof -
  let ?A = "one_by_one (Fin 3)"
  note b = pair_state_fields
  define v :: real where "v = 3000000000000000000000000000000 / 3000000000000001000000000000001"
  define u :: real where "u = 27000000000000009000000000000009000000000000000000000000000000000000000000000 / 9000000000000009000000000000006000000000000007000000000000002000000000000001"
  have "rank_one_in_range ?A pair_state"
    by (simp add: rank_one_in_range_def pair_state_def one_by_one_def one_by_two_def)
  from rank_one_iteration_result [OF this, of cor] obtain s1 d1 where
    it: "rank_one_iteration cor ?A pair_state = Inr (s1, d1)"
    and V: "matrixV s1 = unit_col (rank_one_v_update ?A pair_state) 0"
    and U: "matrixU s1 = unit_col (rank_one_u_update ?A pair_state (matrixV s1)) 0"
    and d: "d1 = vnorm (nrows (matrixU pair_state))
                   (col (rank_one_u_update ?A pair_state (matrixV s1)) 0)"
    and t: "fit_tol s1 = cor (col_list (matrixU s1) 0) (col_list (matrixU pair_state) 0)"
    and rel: "step_rel pair_state s1"
    by blast
  note f = step_rel_fields [OF rel]
  have v1: "ent (rank_one_v_update ?A pair_state) 0 0 = Fin (3000000000000000 / 1000000000000001)"
    by (simp add: ent_rank_one_v_update b ent_one_by_one penalty_def DIV_OFFSET_def eps_def)
  have v2: "ent (matrixV s1) 0 0 = Fin v"
    unfolding V v_def
    by (simp add: ent_unit_col vnorm_one_row col_def b v1 DIV_OFFSET_def eps_def)
  have rv: "nrows (matrixV s1) = Suc 0"
    using f(10) b by simp
  have u1: "ent (rank_one_u_update ?A pair_state (matrixV s1)) 0 0 = Fin u"
    unfolding u_def v2 [unfolded v_def]
    by (simp add: ent_rank_one_u_update b rv v2 [unfolded v_def] ent_one_by_one penalty_def
          DIV_OFFSET_def eps_def)
  have d1: "d1 = Fin u"
    unfolding d by (simp add: b vnorm_one_row col_def u1) (simp add: u_def)
  have u2: "ent (matrixU s1) 0 0 * d1 = Fin (u / (u + eps) * u)"
    unfolding U d1
    by (simp add: ent_unit_col vnorm_one_row col_def b u1 DIV_OFFSET_def)
       (simp add: u_def eps_def)
  have p: "2 < u / (u + eps) * u"
    by (simp add: u_def eps_def)
  have q: "9 / 10 < v" "v < 1"
    by (simp_all add: v_def)
  have u3: "ent (matrixU s1) 0 (Suc 0) = 2"
    unfolding U
    by (simp add: ent_unit_col rank_one_u_update_def Let_def ent_set_col b)
  have ru: "nrows (matrixU s1) = Suc 0"
    using f(8) b by simp
  have t': "\<exists>x. fit_tol s1 = cor [x] [1]"
    unfolding t by (auto simp: col_list_def ru b col_def)
  show ?thesis
  proof (cases "fit_tol s1 < tol s1")
    case True
    from fit_rank_one_converged [OF b(1) _ it True, of d0] b
    have run: "fit_rank_one cor d0 pair_state
                 = Inr (s1\<lparr>matrixU := scale_col (matrixU s1) 0 d1\<rparr>)" by simp
    from fit_rank_one_rel [OF run]
    have "fit_rel 1 pair_state (s1\<lparr>matrixU := scale_col (matrixU s1) 0 d1\<rparr>)" .
    with True t' run v2 u2 u3 p q ru f(2,6,7) b show ?thesis
      by (simp add: ent_scale_col)
  next
    case False
    from fit_rank_one_exhausted [OF b(1) _ _ it False, of d0] b
    have run: "fit_rank_one cor d0 pair_state
                 = Inr (s1\<lparr>fit_iter := Suc (fit_iter s1),
                           matrixU := scale_col (matrixU s1) 0 d1\<rparr>)" by simp
    from fit_rank_one_rel [OF run]
    have "fit_rel 1 pair_state
            (s1\<lparr>fit_iter := Suc (fit_iter s1), matrixU := scale_col (matrixU s1) 0 d1\<rparr>)" .
    with False t' run v2 u2 u3 p q ru f(2,6,7) b show ?thesis
      by (simp add: ent_scale_col)
  qed
qed

text \<open>A fitter whose first iteration meets the exit criterion.\<close>

lemma rank_two_breaks:
  assumes "matrixA s = Dense A" and "rank_two_in_range A s"
    and "fit_iter s < maxit s" and "0 < tol s"
  shows "\<exists>s'. fit_rank_two cor0 d0 s = Inr s'
          \<and> fit_rel 1 s s' \<and> als_steps s' = Suc (als_steps s) \<and> fit_iter s' = fit_iter s"
proof -
  from rank_two_iteration_result [OF assms(2), of cor0] obtain s1 d1 where
    it: "rank_two_iteration cor0 A s = Inr (s1, d1)"
    and t: "fit_tol s1 = cor0 (col_list (matrixU s1) 1) (col_list (matrixU s) 1)"
    and rel: "step_rel s s1"
    by blast
  note f = step_rel_fields [OF rel]
  have "fit_tol s1 < tol s1" using t f(2) assms(4) by (simp add: cor0_def)
  from fit_rank_two_converged [OF assms(1,3) it this, of d0]
  have run: "fit_rank_two cor0 d0 s = Inr (s1\<lparr>matrixU := scale_col (matrixU s1) 1 d1\<rparr>)" .
  from fit_rank_two_rel [OF run]
  have "fit_rel 1 s (s1\<lparr>matrixU := scale_col (matrixU s1) 1 d1\<rparr>)" .
  with run f(6,7) show ?thesis by simp
qed

lemma pair_state_ranks:
  "\<exists>s1 s2. fit_ranks cor0 junk [0..<1] pair_state = Inr s1
     \<and> fit_ranks cor0 junk [0..<2] pair_state = Inr s2
     \<and> als_steps s1 = 1 \<and> fit_iter s1 = 0 \<and> als_steps s2 = 2 \<and> fit_iter s2 = 0
     \<and> nrows (matrixU s2) = Suc 0 \<and> ncols (matrixU s2) = 2 \<and> vectorD s2 = [1, 1]"
proof -
  note b = pair_state_fields
  from pair_state_rank_one [of cor0 "junk 0"] obtain s1 where
    one: "fit_rank_one cor0 (junk 0) pair_state = Inr s1"
    and rel: "fit_rel 1 pair_state s1" and c: "als_steps s1 = 1" "fit_iter s1 = 0"
    by (auto simp: cor0_def)
  have k: "matrixA s1 = Dense (one_by_one (Fin 3))"
    "nrows (matrixU s1) = Suc 0" "nrows (matrixV s1) = Suc 0"
    "ncols (matrixU s1) = 2" "ncols (matrixV s1) = 2"
    "fit_iter s1 < maxit s1" "0 < tol s1" "vectorD s1 = [1, 1]"
    using rel c b unfolding fit_rel_def by simp_all
  have "rank_two_in_range (one_by_one (Fin 3)) s1"
    using k by (simp add: rank_two_in_range_def one_by_one_def)
  from rank_two_breaks [OF k(1) this k(6,7), of "junk 1"] obtain s2 where
    two: "fit_rank_two cor0 (junk 1) s1 = Inr s2"
    and rel2: "fit_rel 1 s1 s2" and c2: "als_steps s2 = Suc (als_steps s1)"
      "fit_iter s2 = fit_iter s1"
    by blast
  have k2: "nrows (matrixU s2) = Suc 0" "ncols (matrixU s2) = 2" "vectorD s2 = [1, 1]"
    using rel2 k unfolding fit_rel_def by simp_all
  have l1: "[0..<1] = [0]" and l2: "[0..<2] = [0, Suc 0]"
    by (simp_all add: upt_rec)
  have "fit_ranks cor0 junk [0..<1] pair_state = Inr s1"
    unfolding l1 using one by simp
  moreover have "fit_ranks cor0 junk [0..<2] pair_state = Inr s2"
    unfolding l2 using one two by simp
  ultimately show ?thesis
    using c c2 k2 by auto
qed

text \<open>A run in which the first fitter uses up the budget.\<close>

lemma pair_state_ranks_exhausted:
  "\<exists>s1 s2. fit_ranks cor1 junk [0..<1] pair_state = Inr s1
     \<and> fit_ranks cor1 junk [0..<2] pair_state = Inr s2
     \<and> als_steps s1 = 1 \<and> fit_iter s1 = 1 \<and> als_steps s2 = 1 \<and> fit_iter s2 = 1
     \<and> nrows (matrixU s2) = Suc 0 \<and> ncols (matrixU s2) = 2 \<and> vectorD s2 = [1, 1]
     \<and> ent (matrixU s2) 0 (Suc 0) = 2 * junk 1"
proof -
  note b = pair_state_fields
  from pair_state_rank_one [of cor1 "junk 0"] obtain s1 where
    one: "fit_rank_one cor1 (junk 0) pair_state = Inr s1"
    and rel: "fit_rel 1 pair_state s1" and c: "als_steps s1 = 1" "fit_iter s1 = 1"
    and y: "ent (matrixU s1) 0 (Suc 0) = 2"
    by (auto simp: cor1_def)
  have k: "matrixA s1 = Dense (one_by_one (Fin 3))"
    "nrows (matrixU s1) = Suc 0" "ncols (matrixU s1) = 2"
    "maxit s1 \<le> fit_iter s1" "vectorD s1 = [1, 1]"
    using rel c b unfolding fit_rel_def by simp_all
  let ?s2 = "s1\<lparr>matrixU := scale_col (matrixU s1) 1 (junk 1)\<rparr>"
  have two: "fit_rank_two cor1 (junk 1) s1 = Inr ?s2"
    using k by (intro fit_rank_two_idle) simp_all
  have l1: "[0..<1] = [0]" and l2: "[0..<2] = [0, Suc 0]"
    by (simp_all add: upt_rec)
  have "fit_ranks cor1 junk [0..<1] pair_state = Inr s1"
    unfolding l1 using one by simp
  moreover have "fit_ranks cor1 junk [0..<2] pair_state = Inr ?s2"
    unfolding l2 using one two by simp
  ultimately show ?thesis
    using c k y by (auto simp: ent_scale_col)
qed

section \<open>Runs on a matrix of one entry\<close>

lemma one_by_one_fields:
  "nrows (one_by_one x) = Suc 0" "ncols (one_by_one x) = Suc 0"
  by (simp_all add: one_by_one_def)

lemma eps_denominators [simp]: "eps \<noteq> 0" "0 \<le> y \<Longrightarrow> y + eps \<noteq> 0"
proof -
  show "eps \<noteq> 0" using eps_pos by simp
  assume "0 \<le> y"
  then have "0 < y + eps" using eps_pos by (simp add: add_nonneg_pos)
  then show "y + eps \<noteq> 0" by simp
qed

lemma rank_one_on_one_by_one:
  assumes A: "matrixA s = Dense (one_by_one (Fin a))"
    and shape: "nrows (matrixU s) = Suc 0" "nrows (matrixV s) = Suc 0"
      "0 < ncols (matrixU s)" "0 < ncols (matrixV s)"
    and conf: "L1 s = (0, 0)" "fit_iter s < maxit s" "0 < tol s"
    and x: "ent (matrixU s) 0 0 = Fin x"
  shows "\<exists>s'. fit_rank_one cor0 d0 s = Inr s'
          \<and> fit_rel 1 s s' \<and> als_steps s' = Suc (als_steps s) \<and> fit_iter s' = fit_iter s
          \<and> ent (matrixV s') 0 0 = Fin (scalar_v x a)
          \<and> ent (matrixU s') 0 0 = Fin (unit_scalar (scalar_u x a) * \<bar>scalar_u x a\<bar>)"
proof -
  let ?A = "one_by_one (Fin a)"
  have "rank_one_in_range ?A s"
    using shape by (simp add: rank_one_in_range_def one_by_one_def)
  from rank_one_iteration_result [OF this, of cor0] obtain s1 d1 where
    it: "rank_one_iteration cor0 ?A s = Inr (s1, d1)"
    and V: "matrixV s1 = unit_col (rank_one_v_update ?A s) 0"
    and U: "matrixU s1 = unit_col (rank_one_u_update ?A s (matrixV s1)) 0"
    and d: "d1 = vnorm (nrows (matrixU s)) (col (rank_one_u_update ?A s (matrixV s1)) 0)"
    and t: "fit_tol s1 = cor0 (col_list (matrixU s1) 0) (col_list (matrixU s) 0)"
    and rel: "step_rel s s1"
    by blast
  note f = step_rel_fields [OF rel]
  have rv: "nrows (matrixV s1) = Suc 0" using f(10) shape by simp
  have ru: "nrows (matrixU s1) = Suc 0" using f(8) shape by simp
  have v2: "ent (matrixV s1) 0 0 = Fin (scalar_v x a)"
    unfolding V scalar_v_def unit_scalar_def
    by (simp add: ent_unit_col vnorm_one_row col_def shape ent_rank_one_v_update conf x
          ent_one_by_one penalty_def DIV_OFFSET_def)
  have u1: "ent (rank_one_u_update ?A s (matrixV s1)) 0 0 = Fin (scalar_u x a)"
    unfolding scalar_u_def
    by (simp add: ent_rank_one_u_update shape rv v2 conf ent_one_by_one penalty_def
          DIV_OFFSET_def)
  have d1: "d1 = Fin \<bar>scalar_u x a\<bar>"
    unfolding d by (simp add: shape vnorm_one_row col_def u1)
  have u2: "ent (matrixU s1) 0 0 = Fin (unit_scalar (scalar_u x a))"
    unfolding U unit_scalar_def
    by (simp add: ent_unit_col vnorm_one_row col_def shape u1 DIV_OFFSET_def)
  have "fit_tol s1 < tol s1" using t f(2) conf by (simp add: cor0_def)
  from fit_rank_one_converged [OF A conf(2) it this, of d0]
  have run: "fit_rank_one cor0 d0 s = Inr (s1\<lparr>matrixU := scale_col (matrixU s1) 0 d1\<rparr>)" .
  from fit_rank_one_rel [OF run]
  have "fit_rel 1 s (s1\<lparr>matrixU := scale_col (matrixU s1) 0 d1\<rparr>)" .
  with run v2 u2 d1 ru f(6,7) show ?thesis
    by (simp add: ent_scale_col)
qed

lemma scalar_zero: "x * a = 0 \<Longrightarrow> scalar_v x a = 0 \<and> scalar_u x a = 0"
  by (auto simp: scalar_u_def scalar_v_def unit_scalar_def)

lemma unit_scalar_pos:
  assumes "0 < v"
  shows "0 < unit_scalar v" and "unit_scalar v < 1"
  using assms eps_pos by (simp_all add: unit_scalar_def field_simps)

lemma scalar_pos:
  assumes "0 < x" and "0 < a"
  shows "0 < scalar_v x a" and "scalar_v x a < 1" and "0 < scalar_u x a"
proof -
  have e: "0 < eps" by (rule eps_pos)
  have "0 < x * a / (x * x + eps)"
    using assms e by (intro divide_pos_pos mult_pos_pos add_pos_pos)
  from unit_scalar_pos [OF this]
  show v: "0 < scalar_v x a" and "scalar_v x a < 1"
    by (simp_all add: scalar_v_def)
  from v assms e show "0 < scalar_u x a"
    unfolding scalar_u_def by (intro divide_pos_pos mult_pos_pos add_pos_pos)
qed

text \<open>
  \<open>fit()\<close> on a matrix of one entry, for factors of one column: the first fitter, then
  the final loop, which divides the column of U by its norm.
\<close>

lemma fit_one_by_one:
  assumes A: "matrixA s = Dense (one_by_one (Fin a))"
    and shape: "nrows (matrixU s) = Suc 0" "nrows (matrixV s) = Suc 0"
      "ncols (matrixU s) = Suc 0" "0 < ncols (matrixV s)"
    and conf: "L1 s = (0, 0)" "fit_iter s < maxit s" "0 < tol s"
    and x: "ent (matrixU s) 0 0 = Fin x"
    and D: "vectorD s \<noteq> []"
    and n: "n = unit_scalar (scalar_u x a) * \<bar>scalar_u x a\<bar>"
  shows "\<exists>s1 s'. fit_ranks cor0 junk [0..<ncols (matrixU s)] s = Inr s1
          \<and> fit_rel 1 s s1 \<and> ent (matrixU s1) 0 0 = Fin n \<and> col_norm s1 0 = Fin \<bar>n\<bar>
          \<and> fit cor0 junk s = Inr s' \<and> diag_rel s1 s'
          \<and> vectorD s' ! 0 = Fin \<bar>n\<bar> \<and> ent (matrixU s') 0 0 = Fin n / Fin \<bar>n\<bar>
          \<and> col_norm s' 0 = \<bar>Fin n / Fin \<bar>n\<bar>\<bar>
          \<and> ent (matrixV s') 0 0 = Fin (scalar_v x a)"
proof -
  from rank_one_on_one_by_one [OF A shape(1,2) _ shape(4) conf x, of "junk 0"] shape(3)
  obtain s1 where one: "fit_rank_one cor0 (junk 0) s = Inr s1"
    and rel: "fit_rel 1 s s1"
    and v: "ent (matrixV s1) 0 0 = Fin (scalar_v x a)"
    and u: "ent (matrixU s1) 0 0 = Fin n"
    unfolding n by auto
  have k: "nrows (matrixU s1) = Suc 0" "ncols (matrixU s1) = Suc 0" "vectorD s1 \<noteq> []"
    using rel shape D unfolding fit_rel_def by auto
  have ranks: "fit_ranks cor0 junk [0..<ncols (matrixU s)] s = Inr s1"
    using one by (simp add: shape(3))
  have cn: "col_norm s1 0 = Fin \<bar>n\<bar>"
    by (simp add: col_norm_def k vnorm_one_row col_def u)
  let ?s' = "s1\<lparr>vectorD := (vectorD s1)[0 := Fin \<bar>n\<bar>],
                 matrixU := set_col (matrixU s1) 0 (\<lambda>r. ent (matrixU s1) r 0 / Fin \<bar>n\<bar>)\<rparr>"
  have diag: "calc_diagonal [0..<ncols (matrixU s1)] s1 = Inr ?s'"
    using k(3) by (simp add: k(1,2) vnorm_one_row col_def u Let_def)
  have fit: "fit cor0 junk s = Inr ?s'"
    unfolding fit_def ranks using diag by simp
  have "diag_rel s1 ?s'"
    using diag by (rule calc_diagonal_rel)
  moreover have "vectorD ?s' ! 0 = Fin \<bar>n\<bar>"
    using k(3) by simp
  moreover have u': "ent (matrixU ?s') 0 0 = Fin n / Fin \<bar>n\<bar>"
    by (simp add: ent_set_col k u)
  moreover have "col_norm ?s' 0 = \<bar>Fin n / Fin \<bar>n\<bar>\<bar>"
    unfolding col_norm_def by (simp add: k vnorm_one_row col_def ent_set_col u)
  moreover have "ent (matrixV ?s') 0 0 = Fin (scalar_v x a)"
    using v by simp
  ultimately show ?thesis
    using ranks rel u cn fit by blast
qed

lemma sum_of_squares:
  "dot n x x \<noteq> NInf \<and> (\<forall>q. dot n x x = Fin q \<longrightarrow> 0 \<le> q)"
proof (induction n)
  case 0
  show ?case by (simp add: dot_def)
next
  case (Suc n)
  have "x n * x n \<noteq> NInf \<and> (\<forall>q. x n * x n = Fin q \<longrightarrow> 0 \<le> q)"
    by (cases "x n") (simp_all add: signed_inf_def)
  with Suc show ?case
    unfolding dot_Suc by (cases "dot n x x"; cases "x n * x n") simp_all
qed

lemma fitter_denominators_not_zero:
  "dot n x x + DIV_OFFSET \<noteq> 0" "vnorm n x + DIV_OFFSET \<noteq> 0"
proof -
  from sum_of_squares [of n x] eps_pos show "dot n x x + DIV_OFFSET \<noteq> 0"
    by (cases "dot n x x") (auto simp: DIV_OFFSET_def)
  from sum_of_squares [of n x] eps_pos show "vnorm n x + DIV_OFFSET \<noteq> 0"
    unfolding vnorm_def
    by (cases "dot n x x") (auto simp: DIV_OFFSET_def add_nonneg_eq_0_iff)
qed

lemma zero_state_fields:
  "matrixA zero_state = Dense (one_by_one (Fin 0))"
  "nrows (matrixU zero_state) = Suc 0" "nrows (matrixV zero_state) = Suc 0"
  "ncols (matrixU zero_state) = Suc 0" "0 < ncols (matrixV zero_state)"
  "L1 zero_state = (0, 0)" "fit_iter zero_state < maxit zero_state" "0 < tol zero_state"
  "ent (matrixU zero_state) 0 0 = Fin 1" "vectorD zero_state \<noteq> []"
  by (simp_all add: zero_state_def one_by_one_def)


text \<open>
  C4: the final loop of \<open>fit()\<close> divides each column of U by \<open>d(i)\<close>, its norm, with no
  offset. For A = (0) and U = (1), with the defaults of the class and a correlation helper
  that meets the exit criterion, the first fitter leaves the column (0) in U; the final
  loop stores \<open>d(0) = 0\<close> and divides the entry 0 by it, which leaves NaN in U. The fitters
  themselves divide by \<open>dot(x, x) + eps\<close> or by \<open>norm + eps\<close> only, which are never zero
  (\<open>fitter_denominators_not_zero\<close>).
\<close>

theorem fit_divides_by_zero:
  "\<exists>s1 s'. fit_ranks cor0 junk0 [0..<ncols (matrixU zero_state)] zero_state = Inr s1
     \<and> ent (matrixU s1) 0 0 = 0
     \<and> fit cor0 junk0 zero_state = Inr s'
     \<and> vectorD s' ! 0 = 0 \<and> ent (matrixU s') 0 0 = NaN"
proof -
  have "(0::real) = unit_scalar (scalar_u 1 0) * \<bar>scalar_u 1 0\<bar>"
    using scalar_zero [of 1 0] by simp
  from fit_one_by_one [OF zero_state_fields this, of junk0] show ?thesis
    by auto
qed


section \<open>Whole runs of fit\<close>

lemma calc_diagonal_returns:
  assumes "ncols (matrixU s) \<le> length (vectorD s)"
  shows "\<exists>s'. calc_diagonal [0..<ncols (matrixU s)] s = Inr s'"
proof -
  have "distinct [0..<ncols (matrixU s)]" by simp
  moreover have "\<forall>i\<in>set [0..<ncols (matrixU s)]. i < length (vectorD s)"
    using assms by auto
  ultimately show ?thesis
    using calc_diagonal_result [of "[0..<ncols (matrixU s)]" s] by blast
qed

text \<open>
  C9, as the spec states it: the iterations of all ranks together are at most \<open>maxit\<close>.
  For A = (3), U = (1 2), \<open>maxit = 1\<close> and a correlation helper that meets the exit
  criterion, each of the two fitters executes its loop body once and leaves with
  \<open>break\<close>, before \<open>iter_\<close> is counted up: two iterations with a budget of one.
\<close>

theorem fit_exceeds_budget:
  "map_sum id als_steps (fit cor0 junk0 pair_state) = Inr 2 \<and> maxit pair_state = 1"
proof -
  from pair_state_ranks [of junk0] obtain s2 where
    ranks: "fit_ranks cor0 junk0 [0..<2] pair_state = Inr s2"
    and c: "als_steps s2 = 2"
    and k: "ncols (matrixU s2) = 2" "vectorD s2 = [1, 1]"
    by blast
  from calc_diagonal_returns [of s2] k obtain s' where
    diag: "calc_diagonal [0..<ncols (matrixU s2)] s2 = Inr s'" by auto
  from calc_diagonal_rel [OF diag] c have "als_steps s' = 2"
    by (simp add: diag_rel_def)
  moreover have "fit cor0 junk0 pair_state = Inr s'"
    using ranks diag by (simp add: fit_def pair_state_fields)
  ultimately show ?thesis
    by (simp add: pair_state_fields)
qed

text \<open>
  A run in which the first fitter uses up the budget. The second fitter executes no
  iteration and multiplies its column by what its local \<open>d\<close> holds, here 0; the final
  loop divides that column by its norm 0, and \<open>fit()\<close> returns.
\<close>

theorem fit_iteration_budget_witness:
  "\<exists>s' s1. fit cor1 junk0 pair_state = Inr s' \<and> 1 \<le> ncols (matrixU pair_state)
     \<and> fit_ranks cor1 junk0 [0..<1] pair_state = Inr s1
     \<and> maxit pair_state \<le> fit_iter s1
     \<and> fit_iter pair_state \<le> fit_iter s1 \<and> fit_iter s1 \<le> fit_iter s'
     \<and> fit_iter s' \<le> max (fit_iter pair_state) (maxit pair_state)
     \<and> als_steps s' \<le> als_steps pair_state + (maxit pair_state - fit_iter pair_state)
          + ncols (matrixU pair_state)
     \<and> als_steps s' = als_steps s1"
proof -
  from pair_state_ranks_exhausted [of junk0] obtain s1 s2 where
    first: "fit_ranks cor1 junk0 [0..<1] pair_state = Inr s1"
    and ranks: "fit_ranks cor1 junk0 [0..<2] pair_state = Inr s2"
    and c: "fit_iter s1 = 1"
    and k: "ncols (matrixU s2) = 2" "vectorD s2 = [1, 1]"
    by blast
  from calc_diagonal_returns [of s2] k obtain s' where
    diag: "calc_diagonal [0..<ncols (matrixU s2)] s2 = Inr s'" by auto
  have run: "fit cor1 junk0 pair_state = Inr s'"
    using ranks diag by (simp add: fit_def pair_state_fields)
  have j: "1 \<le> ncols (matrixU pair_state)"
    by (simp add: pair_state_fields)
  have used: "maxit pair_state \<le> fit_iter s1"
    using c by (simp add: pair_state_fields)
  from fit_iteration_budget [OF run j first] run j first used show ?thesis
    by blast
qed



section \<open>The deflation of the rank two fitter\<close>

lemma unit_col_below:
  assumes "nrows m = Suc 0" and "ent m 0 c = Fin w" and "w < - eps"
  shows "\<exists>w2. ent (unit_col m c) 0 c = Fin w2 \<and> w2 < - (1 / 2)"
proof -
  have "ent (unit_col m c) 0 c = Fin (w / (\<bar>w\<bar> + eps))"
    using assms(1,2) by (simp add: ent_unit_col vnorm_one_row col_def DIV_OFFSET_def)
  moreover have "w / (\<bar>w\<bar> + eps) < - (1 / 2)"
    using assms(3) eps_pos by (simp add: field_simps)
  ultimately show ?thesis by blast
qed

lemma rank_two_reads_outside_U:
  assumes "nrows (matrixU s) < nrows (matrixV s)"
  shows "rank_two_iteration cor A s = Inl OutOfRange"
  using assms by (auto simp: rank_two_iteration_def rank_two_in_range_def Let_def)

text \<open>
  C3: the V update of the rank two fitter subtracts \<open>(dot(u1, u0) + eps) * U(i,0)\<close>, not
  \<open>(dot(u1, u0) + eps) * V(i,0)\<close>, and the U update \<open>(dot(v1, v0) + eps) * V(i,0)\<close>, not
  \<open>(dot(v1, v0) + eps) * U(i,0)\<close>. In \<open>fit()\<close> on A = (3), U = (1 2), after the first fitter
  has run, the entry that the V update writes is below the entry of the spec by more than
  0.9, and the entry that the U update writes is below the entry of the spec.
\<close>

theorem rank_two_deflates_with_other_factor:
  "\<exists>s1. fit_rank_one cor0 (junk0 0) pair_state = Inr s1 \<and> fit_iter s1 < maxit s1
     \<and> ent (rank_two_v_update (one_by_one 3) s1) 0 1 + 9 / 10
         < rank_two_v_claimed (one_by_one 3) s1 0
     \<and> ent (rank_two_u_update (one_by_one 3) s1
               (unit_col (rank_two_v_update (one_by_one 3) s1) 1)) 0 1
         < rank_two_u_claimed (one_by_one 3) s1
               (unit_col (rank_two_v_update (one_by_one 3) s1) 1) 0"
proof -
  let ?A = "one_by_one (Fin 3)"
  note b = pair_state_fields
  define e where "e = eps"
  have e: "0 < e" "e < 1 / 10" by (simp_all add: e_def eps_def)
  from pair_state_rank_one [of cor0 "junk0 0"] obtain s1 p q where
    one: "fit_rank_one cor0 (junk0 0) pair_state = Inr s1"
    and rel: "fit_rel 1 pair_state s1" and c: "fit_iter s1 = 0"
    and q: "ent (matrixV s1) 0 0 = Fin q" and p: "ent (matrixU s1) 0 0 = Fin p"
    and pq: "9 / 10 < q" "q < 1" "2 < p"
    and y: "ent (matrixU s1) 0 (Suc 0) = 2"
    by (auto simp: cor0_def)
  have k: "nrows (matrixU s1) = Suc 0" "nrows (matrixV s1) = Suc 0"
    "L1 s1 = (0, 0)" "maxit s1 = Suc 0"
    using rel b unfolding fit_rel_def by simp_all
  let ?V1 = "rank_two_v_update ?A s1"
  let ?V2 = "unit_col ?V1 (Suc 0)"
  \<comment> \<open>the V update\<close>
  define w1 where "w1 = (6 - p * (2 * p + e)) / (4 + e)"
  define cv where "cv = (6 - (2 * p + e) * q) / (4 + e)"
  have e4: "4 + e \<noteq> 0" using e by simp
  have w1: "ent ?V1 0 (Suc 0) = Fin w1"
    using e4 unfolding w1_def e_def
    by (simp add: ent_rank_two_v_update k y p ent_one_by_one penalty_def DIV_OFFSET_def)
  have cv: "rank_two_v_claimed ?A s1 0 = Fin cv"
    using e4 unfolding cv_def e_def
    by (simp add: rank_two_v_claimed_def Let_def k y p q dot_one_row col_def ent_one_by_one
          penalty_def DIV_OFFSET_def)
  define G where "G = (p - q) * (2 * p + e) / (4 + e)"
  have "w1 - cv = ((6 - p * (2 * p + e)) - (6 - (2 * p + e) * q)) / (4 + e)"
    unfolding w1_def cv_def by (simp add: diff_divide_distrib)
  also have "(6 - p * (2 * p + e)) - (6 - (2 * p + e) * q) = - ((p - q) * (2 * p + e))"
    by (simp add: algebra_simps)
  finally have "w1 - cv = - G"
    by (simp add: G_def)
  moreover have "9 / 10 < G"
  proof -
    have "1 * 4 < (p - q) * (2 * p + e)"
      using pq e by (intro mult_strict_mono) simp_all
    then have "9 / 10 * (4 + e) < (p - q) * (2 * p + e)"
      using e by simp
    then show ?thesis
      using e by (simp add: G_def pos_less_divide_eq)
  qed
  ultimately have "w1 + 9 / 10 < cv" by simp
  then have v: "ent ?V1 0 (Suc 0) + 9 / 10 < rank_two_v_claimed ?A s1 0"
    by (simp add: w1 cv)
  \<comment> \<open>the U update\<close>
  have "2 * 4 < p * (2 * p + e)"
    using pq e by (intro mult_strict_mono) simp_all
  then have "6 - p * (2 * p + e) < - 2" by simp
  moreover have "e * (4 + e) < 1 / 10 * 5"
    using e by (intro mult_strict_mono) simp_all
  ultimately have "6 - p * (2 * p + e) < - e * (4 + e)" by simp
  then have "w1 < - e"
    unfolding w1_def using e by (simp add: pos_divide_less_eq)
  then have "w1 < - eps" by (simp add: e_def)
  have r1: "nrows ?V1 = Suc 0" by (simp add: k)
  from unit_col_below [OF r1 w1 \<open>w1 < - eps\<close>] obtain w2 where
    w2: "ent ?V2 0 (Suc 0) = Fin w2" and w2': "w2 < - (1 / 2)"
    by blast
  have q2: "ent ?V2 0 0 = Fin q"
    by (simp add: ent_unit_col ent_rank_two_v_update k q)
  have r2: "nrows ?V2 = Suc 0" by (simp add: k)
  define z where "z = (w2 * 3 - q * (w2 * q + e)) / (w2 * w2 + e)"
  define cu where "cu = (w2 * 3 - (w2 * q + e) * p) / (w2 * w2 + e)"
  have ew: "w2 * w2 + e \<noteq> 0"
  proof -
    have "0 < w2 * w2 + e" using e by (simp add: add_nonneg_pos)
    then show ?thesis by simp
  qed
  have z: "ent (rank_two_u_update ?A s1 ?V2) 0 (Suc 0) = Fin z"
    using ew unfolding z_def e_def
    by (simp add: ent_rank_two_u_update [OF k(1) r2] k w2 q2 ent_one_by_one penalty_def
          DIV_OFFSET_def)
  have cu: "rank_two_u_claimed ?A s1 ?V2 0 = Fin cu"
    using ew unfolding cu_def e_def
    by (simp add: rank_two_u_claimed_def Let_def k w2 q2 p dot_one_row col_def row_def
          ent_one_by_one penalty_def DIV_OFFSET_def)
  have "z - cu = ((w2 * 3 - q * (w2 * q + e)) - (w2 * 3 - (w2 * q + e) * p))
                    / (w2 * w2 + e)"
    unfolding z_def cu_def by (simp add: diff_divide_distrib)
  also have "(w2 * 3 - q * (w2 * q + e)) - (w2 * 3 - (w2 * q + e) * p)
               = (p - q) * (w2 * q + e)"
    by (simp add: algebra_simps)
  finally have "z - cu = (p - q) * (w2 * q + e) / (w2 * w2 + e)" .
  moreover have "(p - q) * (w2 * q + e) / (w2 * w2 + e) < 0"
  proof -
    have "w2 * q < - (1 / 2) * q"
      using w2' pq by (intro mult_strict_right_mono) simp_all
    with pq e have neg: "w2 * q + e < 0" by simp
    have "0 < p - q" using pq by simp
    from this neg have "(p - q) * (w2 * q + e) < 0" by (rule mult_pos_neg)
    moreover have "0 < w2 * w2 + e" using e by (simp add: add_nonneg_pos)
    ultimately show ?thesis by (rule divide_neg_pos)
  qed
  ultimately have "z < cu" by simp
  then have u: "ent (rank_two_u_update ?A s1 ?V2) 0 (Suc 0)
      < rank_two_u_claimed ?A s1 ?V2 0"
    by (simp add: z cu)
  from one c k v u show ?thesis by auto
qed

section \<open>The mean squared errors\<close>

lemma three_squares:
  fixes r :: real
  assumes "t + (r - 0)\<^sup>2 = m" and "t + (r - 5)\<^sup>2 = m" and "t + (r - 7)\<^sup>2 = m"
  shows False
proof -
  from assms(1,2) have "(r - 0)\<^sup>2 = (r - 5)\<^sup>2" by simp
  then have "10 * r = 25" by (simp add: power2_eq_square algebra_simps)
  moreover from assms(1,3) have "(r - 0)\<^sup>2 = (r - 7)\<^sup>2" by simp
  then have "14 * r = 49" by (simp add: power2_eq_square algebra_simps)
  ultimately show False by simp
qed

lemma upt_2: "[0..<2] = [0, Suc 0]"
  by (simp add: upt_rec)

lemma mse_thin_sparse:
  "mse losses0 (thin_state (corner c)) = Inr (losses0 0 + 1)"
  by (simp add: mse_def thin_state_def corner_def ones_two_by_one_def sparse_loss_def
        uv_col_def dot_def col_def square_sum_def losses_sum_def upt_2 Let_def)

lemma mse_thin_dense:
  "mse losses0 (thin_state (dense_corner x)) = Inl OutOfRange"
  by (simp add: mse_def thin_state_def dense_corner_def ones_two_by_one_def dense_loss_def
        Let_def)

lemma mse_claimed_thin:
  "mse_claimed recon (thin_state (corner [(Suc 0, Fin x)])) =
     Fin (((recon 0 0 - 1)\<^sup>2 + (recon 1 0)\<^sup>2 + (recon 0 1)\<^sup>2 + (recon 1 1 - x)\<^sup>2) / 2)"
  "mse_claimed recon (thin_state (corner [])) =
     Fin (((recon 0 0 - 1)\<^sup>2 + (recon 1 0)\<^sup>2 + (recon 0 1)\<^sup>2 + (recon 1 1 - 0)\<^sup>2) / 2)"
  by (simp_all add: mse_claimed_def thin_state_def corner_def ones_two_by_one_def
        sp_value_def upt_2)

text \<open>
  C1: with no masking, \<open>mse()\<close> does not sum over all entries of A, and does not divide by
  their number. Its loop runs over the columns of V, one for each rank, and the vector
  \<open>u0 * v.col(i)\<close> has one entry for each column of U; the divisor is
  \<open>v.cols() * u.cols()\<close>. For a sparse A of two rows and two columns with the entry 1 at
  (0,0), and factors of rank one made of ones, \<open>mse()\<close> returns what the array \<open>losses\<close>
  held before plus 1, whatever the second column of A stores, while no reconstruction
  gives the sum of the spec the same value for the entries 0, 5 and 7 at (1,1). For a
  dense A of this shape, the loop reads \<open>uv_i(1)\<close> outside of the vector.
\<close>

theorem mse_ignores_entries:
  "mse losses0 (thin_state (corner [])) = Inr (losses0 0 + 1)
   \<and> mse losses0 (thin_state (corner [(1, 5)])) = Inr (losses0 0 + 1)
   \<and> mse losses0 (thin_state (corner [(1, 7)])) = Inr (losses0 0 + 1)
   \<and> \<not> (mse_claimed recon (thin_state (corner [])) = m
        \<and> mse_claimed recon (thin_state (corner [(1, 5)])) = m
        \<and> mse_claimed recon (thin_state (corner [(1, 7)])) = m)
   \<and> mse losses0 (thin_state (dense_corner 0)) = Inl OutOfRange"
proof -
  have "\<not> (mse_claimed recon (thin_state (corner [])) = m
        \<and> mse_claimed recon (thin_state (corner [(1, 5)])) = m
        \<and> mse_claimed recon (thin_state (corner [(1, 7)])) = m)"
  proof
    assume a: "mse_claimed recon (thin_state (corner [])) = m
        \<and> mse_claimed recon (thin_state (corner [(1, 5)])) = m
        \<and> mse_claimed recon (thin_state (corner [(1, 7)])) = m"
    define t where "t = (recon 0 0 - 1)\<^sup>2 + (recon 1 0)\<^sup>2 + (recon 0 1)\<^sup>2"
    from a obtain m' where m: "m = Fin m'"
      by (auto simp: mse_claimed_thin)
    from a have "t + (recon 1 1 - 0)\<^sup>2 = 2 * m'" "t + (recon 1 1 - 5)\<^sup>2 = 2 * m'"
      "t + (recon 1 1 - 7)\<^sup>2 = 2 * m'"
      unfolding m t_def by (simp_all add: mse_claimed_thin field_simps)
    then show False by (rule three_squares)
  qed
  then show ?thesis
    by (simp add: mse_thin_sparse mse_thin_dense)
qed

section \<open>The mean squared error of the masked entries\<close>

lemma dense_masked_loss_error: "dense_masked_loss A s i = Inl e \<Longrightarrow> e = OutOfRange"
  by (auto simp: dense_masked_loss_def Let_def split: if_splits)

lemma sparse_masked_loss_error: "sparse_masked_loss A s i = Inl e \<Longrightarrow> e = OutOfRange"
  by (auto simp: sparse_masked_loss_def Let_def split: if_splits)

lemma mse_masked_stop:
  "fst (mse_masked losses0 s) = Inl MseMaskedNeedsMask \<longleftrightarrow> \<not> mask s"
  "snd (mse_masked losses0 s) = s"
proof -
  show "snd (mse_masked losses0 s) = s"
    by (simp add: mse_masked_def)
  have "fst (mse_masked losses0 s) \<noteq> Inl MseMaskedNeedsMask" if "mask s"
  proof
    assume a: "fst (mse_masked losses0 s) = Inl MseMaskedNeedsMask"
    let ?f = "case matrixA s of Dense A \<Rightarrow> dense_masked_loss A s
                               | Sparse A \<Rightarrow> sparse_masked_loss A s"
    show False
    proof (cases "collect (map ?f [0..<ncols (matrixV s)])")
      case (Inl e)
      from collect_error [OF this] obtain i where "?f i = Inl e" by auto
      then have "e = OutOfRange"
        by (auto split: matrixT.splits
              dest: dense_masked_loss_error sparse_masked_loss_error)
      with a that Inl show False by (simp add: mse_masked_def)
    next
      case (Inr ls)
      with a that show False
        by (simp add: mse_masked_def)
    qed
  qed
  then show "fst (mse_masked losses0 s) = Inl MseMaskedNeedsMask \<longleftrightarrow> \<not> mask s"
    by (auto simp: mse_masked_def)
qed

lemma set_intersection_example: "set_intersection [Suc 0] [0] = []"
  by simp

lemma mse_masked_sparse:
  "mse_masked losses0 (masked_state (corner c))
     = (Inr ((losses0 0 + 1) / 2), masked_state (corner c))"
  by (simp add: mse_masked_def masked_state_def thin_state_def corner_def top_row_mask_def
        ones_two_by_one_def sparse_masked_loss_def InnerIndices_def InnerIteratorInRange_def
        emptyInnerIndices_def uv_col_def dot_def col_def losses_sum_def nnz_def
        upt_2 Let_def)

lemma mse_masked_dense:
  "mse_masked losses0 (masked_state (dense_corner x))
     = (Inr ((losses0 0 + 1) / 2), masked_state (dense_corner x))"
  by (simp add: mse_masked_def masked_state_def thin_state_def dense_corner_def
        top_row_mask_def ones_two_by_one_def dense_masked_loss_def InnerIndices_def
        uv_col_def dot_def col_def losses_sum_def nnz_def upt_2 Let_def)

lemma mse_masked_claimed_sparse:
  "mse_masked_claimed recon (masked_state (corner [(0, Fin x)])) =
     Fin (((recon 0 0 - 1)\<^sup>2 + (recon 0 1 - x)\<^sup>2) / 2)"
  "mse_masked_claimed recon (masked_state (corner [])) =
     Fin (((recon 0 0 - 1)\<^sup>2 + (recon 0 1 - 0)\<^sup>2) / 2)"
  by (simp_all add: mse_masked_claimed_def masked_state_def thin_state_def corner_def
        top_row_mask_def InnerIndices_def nnz_def sp_value_def upt_2)

text \<open>
  C8: \<open>mse_masked()\<close> stops exactly when no mask matrix is set and changes no state
  (\<open>mse_masked_stop\<close>), but with a mask matrix it does not sum over all masked entries:
  its loop runs over the columns of V, one for each rank. For a matrix of two rows and
  two columns with the entry 1 at (0,0), the entries (0,0) and (0,1) masked and factors
  of rank one made of ones, the masked entry (0,1) is never read: the result is what the
  array \<open>losses\<close> held before plus 1, divided by the two masked entries, whatever A holds at
  (0,1), in the sparse and in the dense case, while no reconstruction gives the sum of
  the spec the same value for the entries 0, 5 and 7 at (0,1).
\<close>

theorem mse_masked_ignores_entries:
  "mse_masked losses0 (masked_state (corner []))
     = (Inr ((losses0 0 + 1) / 2), masked_state (corner []))
   \<and> mse_masked losses0 (masked_state (corner [(0, 5)]))
     = (Inr ((losses0 0 + 1) / 2), masked_state (corner [(0, 5)]))
   \<and> mse_masked losses0 (masked_state (corner [(0, 7)]))
     = (Inr ((losses0 0 + 1) / 2), masked_state (corner [(0, 7)]))
   \<and> \<not> (mse_masked_claimed recon (masked_state (corner [])) = m
        \<and> mse_masked_claimed recon (masked_state (corner [(0, 5)])) = m
        \<and> mse_masked_claimed recon (masked_state (corner [(0, 7)])) = m)
   \<and> mse_masked losses0 (masked_state (dense_corner 0))
     = (Inr ((losses0 0 + 1) / 2), masked_state (dense_corner 0))
   \<and> mse_masked losses0 (masked_state (dense_corner 5))
     = (Inr ((losses0 0 + 1) / 2), masked_state (dense_corner 5))"
proof -
  have "\<not> (mse_masked_claimed recon (masked_state (corner [])) = m
        \<and> mse_masked_claimed recon (masked_state (corner [(0, 5)])) = m
        \<and> mse_masked_claimed recon (masked_state (corner [(0, 7)])) = m)"
  proof
    assume a: "mse_masked_claimed recon (masked_state (corner [])) = m
        \<and> mse_masked_claimed recon (masked_state (corner [(0, 5)])) = m
        \<and> mse_masked_claimed recon (masked_state (corner [(0, 7)])) = m"
    define t where "t = (recon 0 0 - 1)\<^sup>2"
    from a obtain m' where m: "m = Fin m'"
      by (auto simp: mse_masked_claimed_sparse)
    from a have "t + (recon 0 1 - 0)\<^sup>2 = 2 * m'" "t + (recon 0 1 - 5)\<^sup>2 = 2 * m'"
      "t + (recon 0 1 - 7)\<^sup>2 = 2 * m'"
      unfolding m t_def by (simp_all add: mse_masked_claimed_sparse field_simps)
    then show False by (rule three_squares)
  qed
  then show ?thesis
    by (simp add: mse_masked_sparse mse_masked_dense)
qed

section \<open>Runs of fit\_restarts\<close>

lemma restart_one_by_one:
  assumes inv: "one_entry_inv (Fin a) s"
    and n: "n = unit_scalar (scalar_u x a) * \<bar>scalar_u x a\<bar>"
  shows "\<exists>s'. restart cor0 junk l (one_by_one (Fin x)) s = Inr s'
          \<and> fit_mse s' = l 0 + (Fin n / Fin \<bar>n\<bar> * Fin (scalar_v x a) - Fin a)\<^sup>2
          \<and> one_entry_inv (Fin a) s' \<and> best_model s' = best_model s"
proof -
  let ?s0 = "s\<lparr>matrixU := one_by_one (Fin x), fit_tol := 1, fit_iter := 0\<rparr>"
  from inv have i: "matrixA s = Dense (one_by_one (Fin a))"
    "nrows (matrixV s) = Suc 0" "ncols (matrixV s) = Suc 0" "vectorD s \<noteq> []"
    "L1 s = (0, 0)" "0 < maxit s" "0 < tol s" "\<not> mask s" "\<not> mask_zeros s"
    by (simp_all add: one_entry_inv_def)
  have "\<exists>s1 s'. fit_ranks cor0 junk [0..<ncols (matrixU ?s0)] ?s0 = Inr s1
          \<and> fit_rel 1 ?s0 s1 \<and> ent (matrixU s1) 0 0 = Fin n \<and> col_norm s1 0 = Fin \<bar>n\<bar>
          \<and> fit cor0 junk ?s0 = Inr s' \<and> diag_rel s1 s'
          \<and> vectorD s' ! 0 = Fin \<bar>n\<bar> \<and> ent (matrixU s') 0 0 = Fin n / Fin \<bar>n\<bar>
          \<and> col_norm s' 0 = \<bar>Fin n / Fin \<bar>n\<bar>\<bar>
          \<and> ent (matrixV s') 0 0 = Fin (scalar_v x a)"
    using i n by (intro fit_one_by_one) (simp_all add: one_by_one_fields ent_one_by_one)
  then obtain s1 s2 where rel: "fit_rel 1 ?s0 s1"
    and fit: "fit cor0 junk ?s0 = Inr s2" and diag: "diag_rel s1 s2"
    and u: "ent (matrixU s2) 0 0 = Fin n / Fin \<bar>n\<bar>"
    and v: "ent (matrixV s2) 0 0 = Fin (scalar_v x a)"
    by blast
  have k: "matrixA s2 = Dense (one_by_one (Fin a))"
    "nrows (matrixU s2) = Suc 0" "ncols (matrixU s2) = Suc 0"
    "nrows (matrixV s2) = Suc 0" "ncols (matrixV s2) = Suc 0" "vectorD s2 \<noteq> []"
    "L1 s2 = (0, 0)" "maxit s2 = maxit s" "tol s2 = tol s" "\<not> mask s2" "\<not> mask_zeros s2"
    "best_model s2 = best_model s"
    using rel diag i unfolding fit_rel_def diag_rel_def
    by (auto simp: one_by_one_fields)
  let ?m = "l 0 + (Fin n / Fin \<bar>n\<bar> * Fin (scalar_v x a) - Fin a)\<^sup>2"
  have "dense_loss (one_by_one (Fin a)) s2 0
          = Inr ((Fin n / Fin \<bar>n\<bar> * Fin (scalar_v x a) - Fin a)\<^sup>2)"
    using k u v
    by (simp add: dense_loss_def Let_def one_by_one_fields uv_col_def dot_one_row col_def
          square_sum_def ent_one_by_one)
  then have mse: "mse l s2 = Inr ?m"
    using k by (simp add: mse_def Let_def losses_sum_def)
  have "restart cor0 junk l (one_by_one (Fin x)) s = Inr (s2\<lparr>fit_mse := ?m\<rparr>)"
    using i fit mse by (simp add: restart_def Let_def one_by_one_fields)
  moreover have "one_entry_inv (Fin a) (s2\<lparr>fit_mse := ?m\<rparr>)"
    using k i by (simp add: one_entry_inv_def)
  ultimately show ?thesis
    using k(12) by simp
qed

lemma restart_positive:
  assumes "one_entry_inv (Fin a) s" and "0 < x" and "0 < a"
  shows "\<exists>s'. restart cor0 junk l (one_by_one (Fin x)) s = Inr s'
          \<and> fit_mse s' = l 0 + Fin ((scalar_v x a - a)\<^sup>2)
          \<and> one_entry_inv (Fin a) s' \<and> best_model s' = best_model s"
proof -
  define n where "n = unit_scalar (scalar_u x a) * \<bar>scalar_u x a\<bar>"
  from scalar_pos(3) [OF assms(2,3)] have su: "0 < scalar_u x a" .
  from unit_scalar_pos(1) [OF su] su have "0 < n" by (simp add: n_def)
  then have "Fin n / Fin \<bar>n\<bar> = Fin 1" by simp
  with restart_one_by_one [OF assms(1) n_def, of junk l] show ?thesis
    by simp
qed

lemma restart_zero:
  assumes "one_entry_inv (Fin a) s"
  shows "\<exists>s'. restart cor0 junk l (one_by_one (Fin 0)) s = Inr s'
          \<and> fit_mse s' = NaN \<and> one_entry_inv (Fin a) s' \<and> best_model s' = best_model s"
proof -
  have n: "(0::real) = unit_scalar (scalar_u 0 a) * \<bar>scalar_u 0 a\<bar>"
    using scalar_zero [of 0 a] by simp
  have "l 0 + (Fin 0 / Fin \<bar>0\<bar> * Fin (scalar_v 0 a) - Fin a)\<^sup>2 = NaN"
    by (cases "l 0") (simp_all add: minus_double_def power2_double)
  with restart_one_by_one [OF assms n, of junk l] show ?thesis
    by simp
qed

lemma scalar_v_values:
  "scalar_v 1 3 = 3000000000000000000000000000000 / 3000000000000001000000000000001"
  "scalar_v 2 3 = 6000000000000000000000000000000 / 6000000000000004000000000000001"
  "scalar_v 3 3 = 9000000000000000000000000000000 / 9000000000000009000000000000001"
  by (simp_all add: scalar_v_def unit_scalar_def eps_def)

lemma restart_state_inv: "one_entry_inv (Fin 3) restart_state"
  by (simp add: one_entry_inv_def restart_state_def one_by_one_def)

lemma restart_state_run:
  "\<exists>s' r0 r1 r2 r3 m0 m1 m3.
      fit_restarts cor0 no_junk no_junk candidates restart_state = Inr s'
      \<and> best_model s' = 1
      \<and> restart_runs cor0 no_junk no_junk 0 candidates restart_state
          (initial_best restart_state) = Inr [r0, r1, r2, r3]
      \<and> map fit_mse [r0, r1, r2, r3] = [Fin m0, Fin m1, Fin m1, Fin m3]"
proof -
  let ?m = "\<lambda>x. Fin ((scalar_v x 3 - 3)\<^sup>2)"
  note i0 = restart_state_inv
  have l: "no_junk i 0 = 0" for i by (simp add: no_junk_def)
  from restart_positive [OF i0, of 2 "no_junk 0" "no_junk 0"] obtain r0 where
    r0: "restart cor0 (no_junk 0) (no_junk 0) (one_by_one (Fin 2)) restart_state = Inr r0"
    and m0: "fit_mse r0 = ?m 2" and i1: "one_entry_inv (Fin 3) r0"
    by (auto simp: l)
  have i1': "one_entry_inv (Fin 3) (r0\<lparr>best_model := 0\<rparr>)"
    using i1 by (simp add: one_entry_inv_def)
  from restart_positive [OF i1', of 1 "no_junk 1" "no_junk 1"] obtain r1 where
    r1: "restart cor0 (no_junk 1) (no_junk 1) (one_by_one (Fin 1)) (r0\<lparr>best_model := 0\<rparr>)
           = Inr r1"
    and m1: "fit_mse r1 = ?m 1" and i2: "one_entry_inv (Fin 3) r1"
    by (auto simp: l)
  have i2': "one_entry_inv (Fin 3) (r1\<lparr>best_model := 1\<rparr>)"
    using i2 by (simp add: one_entry_inv_def)
  from restart_positive [OF i2', of 1 "no_junk 2" "no_junk 2"] obtain r2 where
    r2: "restart cor0 (no_junk 2) (no_junk 2) (one_by_one (Fin 1)) (r1\<lparr>best_model := 1\<rparr>)
           = Inr r2"
    and m2: "fit_mse r2 = ?m 1" and i3: "one_entry_inv (Fin 3) r2" and b2: "best_model r2 = 1"
    by (auto simp: l)
  from restart_positive [OF i3, of 3 "no_junk 3" "no_junk 3"] obtain r3 where
    r3: "restart cor0 (no_junk 3) (no_junk 3) (one_by_one (Fin 3)) r2 = Inr r3"
    and m3: "fit_mse r3 = ?m 3" and b3: "best_model r3 = 1"
    by (auto simp: l b2)
  have c1: "?m 1 < ?m 2" and c3: "\<not> ?m 3 < ?m 1"
    by (simp_all add: scalar_v_values power2_eq_square)
  let ?b = "\<lparr>u_best = matrixU r1, v_best = matrixV r1,
             tol_best = fit_tol r1, mse_best = fit_mse r1\<rparr>"
  let ?first = "\<lparr>u_best = matrixU r0, v_best = matrixV r0,
              tol_best = fit_tol r0, mse_best = fit_mse r0\<rparr>"
  have "restarts_loop cor0 no_junk no_junk 3 [one_by_one (Fin 3)] r2 ?b = Inr (r3, ?b)"
    using r3 m3 m1 c3 by simp
  then have "restarts_loop cor0 no_junk no_junk 2 [one_by_one (Fin 1), one_by_one (Fin 3)]
               (r1\<lparr>best_model := 1\<rparr>) ?b = Inr (r3, ?b)"
    using r2 m2 m1 by (simp add: numeral_3_eq_3 numeral_2_eq_2)
  then have "restarts_loop cor0 no_junk no_junk 1
               [one_by_one (Fin 1), one_by_one (Fin 1), one_by_one (Fin 3)]
               (r0\<lparr>best_model := 0\<rparr>) ?first = Inr (r3, ?b)"
    using r1 m1 m0 c1 by (simp add: numeral_2_eq_2)
  then have "restarts_loop cor0 no_junk no_junk 0 candidates restart_state
               (initial_best restart_state) = Inr (r3, ?b)"
    using r0 by (simp add: candidates_def)
  then have run: "\<exists>s'. fit_restarts cor0 no_junk no_junk candidates restart_state = Inr s'
      \<and> best_model s' = 1"
    using b3 by (simp add: fit_restarts_def candidates_def)
  have "restart_runs cor0 no_junk no_junk 3 [one_by_one (Fin 3)] r2 ?b = Inr [r3]"
    using r3 by simp
  then have "restart_runs cor0 no_junk no_junk 2 [one_by_one (Fin 1), one_by_one (Fin 3)]
               (r1\<lparr>best_model := 1\<rparr>) ?b = Inr [r2, r3]"
    using r2 m2 m1 by (simp add: numeral_3_eq_3 numeral_2_eq_2)
  then have "restart_runs cor0 no_junk no_junk 1
               [one_by_one (Fin 1), one_by_one (Fin 1), one_by_one (Fin 3)]
               (r0\<lparr>best_model := 0\<rparr>) ?first = Inr [r1, r2, r3]"
    using r1 m1 m0 c1 by (simp add: numeral_2_eq_2)
  then have "restart_runs cor0 no_junk no_junk 0 candidates restart_state
               (initial_best restart_state) = Inr [r0, r1, r2, r3]"
    using r0 by (simp add: candidates_def)
  with run m0 m1 m2 m3 show ?thesis by auto
qed

text \<open>
  A run of \<open>fit_restarts\<close> that returns: A = (3) and the candidates (2), (1), (1), (3) for
  U, with the defaults of the class and a correlation helper that meets the exit
  criterion. No mean squared error is NaN; the second and the third run have the least
  error, the second is chosen.
\<close>

theorem fit_restarts_best_witness:
  "\<exists>s'. fit_restarts cor0 no_junk no_junk candidates restart_state = Inr s'
     \<and> candidates \<noteq> [] \<and> best_model s' = 1
     \<and> (\<exists>rs. restart_runs cor0 no_junk no_junk 0 candidates restart_state
                 (initial_best restart_state) = Inr rs
           \<and> length rs = length candidates
           \<and> (\<forall>i<length rs. \<exists>p s2.
                 fit cor0 (no_junk i)
                   (p\<lparr>matrixU := candidates ! i, fit_tol := 1, fit_iter := 0\<rparr>) = Inr s2
                 \<and> mse (no_junk i) s2 = Inr (fit_mse (rs ! i))
                 \<and> rs ! i = s2\<lparr>fit_mse := fit_mse (rs ! i)\<rparr>)
           \<and> best_model s' < length rs
           \<and> same_fit s' (rs ! best_model s')
           \<and> NaN \<notin> set (map fit_mse rs)
           \<and> is_first_min (map fit_mse rs) (best_model s')
           \<and> is_first_min [5, 3, 3, 4] 1 \<and> \<not> is_first_min [5, 3, 3, 4] 2)"
proof -
  from restart_state_run obtain s' r0 r1 r2 r3 m0 m1 m3 where
    run: "fit_restarts cor0 no_junk no_junk candidates restart_state = Inr s'"
    and b: "best_model s' = 1"
    and runs: "restart_runs cor0 no_junk no_junk 0 candidates restart_state
                 (initial_best restart_state) = Inr [r0, r1, r2, r3]"
    and ms: "map fit_mse [r0, r1, r2, r3] = [Fin m0, Fin m1, Fin m1, Fin m3]"
    by (elim exE conjE)
  have ne: "candidates \<noteq> []" by (simp add: candidates_def)
  from fit_restarts_best [OF run ne] obtain rs where
    rs: "restart_runs cor0 no_junk no_junk 0 candidates restart_state
           (initial_best restart_state) = Inr rs"
    and rest: "length rs = length candidates"
      "\<forall>i<length rs. \<exists>p s2.
          fit cor0 (no_junk i)
            (p\<lparr>matrixU := candidates ! i, fit_tol := 1, fit_iter := 0\<rparr>) = Inr s2
          \<and> mse (no_junk i) s2 = Inr (fit_mse (rs ! i))
          \<and> rs ! i = s2\<lparr>fit_mse := fit_mse (rs ! i)\<rparr>"
      "best_model s' < length rs" "same_fit s' (rs ! best_model s')"
      "NaN \<notin> set (map fit_mse rs) \<longrightarrow> is_first_min (map fit_mse rs) (best_model s')"
      "is_first_min [5, 3, 3, 4] 1 \<and> \<not> is_first_min [5, 3, 3, 4] 2"
    by blast
  from rs runs have "rs = [r0, r1, r2, r3]" by simp
  with ms have clean: "NaN \<notin> set (map fit_mse rs)" by auto
  with rest(5) have "is_first_min (map fit_mse rs) (best_model s')" by simp
  with run ne b rs rest clean show ?thesis by blast
qed

text \<open>
  C6, as the spec states it: \<open>best_model()\<close> is the index of the first strict minimum of
  the mean squared errors of the restarts. For A = (3) and the candidates (0) and (1), the
  first restart leaves NaN in U and has the mean squared error NaN; the second has a
  mean squared error that is a number, and \<open>mse_ < mse_best\<close> is false for it:
  \<open>fit_restarts\<close> returns with \<open>best_model() = 0\<close> and the mean squared error NaN.
\<close>

theorem fit_restarts_keeps_nan:
  "\<exists>s' r0 r1 m. fit_restarts cor0 no_junk no_junk nan_candidates restart_state = Inr s'
     \<and> restart_runs cor0 no_junk no_junk 0 nan_candidates restart_state
         (initial_best restart_state) = Inr [r0, r1]
     \<and> fit_mse r0 = NaN \<and> fit_mse r1 = Fin m
     \<and> best_model s' = 0 \<and> fit_mse s' = NaN
     \<and> \<not> is_first_min (map fit_mse [r0, r1]) (best_model s')"
proof -
  note i0 = restart_state_inv
  have l: "no_junk i 0 = 0" for i by (simp add: no_junk_def)
  from restart_zero [OF i0, of "no_junk 0" "no_junk 0"] obtain r0 where
    r0: "restart cor0 (no_junk 0) (no_junk 0) (one_by_one (Fin 0)) restart_state = Inr r0"
    and m0: "fit_mse r0 = NaN" and i1: "one_entry_inv (Fin 3) r0"
    by blast
  have i1': "one_entry_inv (Fin 3) (r0\<lparr>best_model := 0\<rparr>)"
    using i1 by (simp add: one_entry_inv_def)
  from restart_positive [OF i1', of 1 "no_junk 1" "no_junk 1"] obtain r1 where
    r1: "restart cor0 (no_junk 1) (no_junk 1) (one_by_one (Fin 1)) (r0\<lparr>best_model := 0\<rparr>)
           = Inr r1"
    and m1: "fit_mse r1 = Fin ((scalar_v 1 3 - 3)\<^sup>2)" and b1: "best_model r1 = 0"
    by (auto simp: l)
  let ?first = "\<lparr>u_best = matrixU r0, v_best = matrixV r0,
              tol_best = fit_tol r0, mse_best = fit_mse r0\<rparr>"
  have "restarts_loop cor0 no_junk no_junk 1 [one_by_one (Fin 1)] (r0\<lparr>best_model := 0\<rparr>) ?first
          = Inr (r1, ?first)"
    using r1 m1 m0 by simp
  then have "restarts_loop cor0 no_junk no_junk 0 nan_candidates restart_state
               (initial_best restart_state) = Inr (r1, ?first)"
    using r0 by (simp add: nan_candidates_def)
  then have run: "fit_restarts cor0 no_junk no_junk nan_candidates restart_state
      = Inr (r1\<lparr>matrixU := matrixU r0, matrixV := matrixV r0,
                fit_tol := fit_tol r0, fit_mse := fit_mse r0\<rparr>)"
    using b1 by (simp add: fit_restarts_def nan_candidates_def)
  have "restart_runs cor0 no_junk no_junk 1 [one_by_one (Fin 1)] (r0\<lparr>best_model := 0\<rparr>) ?first
          = Inr [r1]"
    using r1 by simp
  then have runs: "restart_runs cor0 no_junk no_junk 0 nan_candidates restart_state
               (initial_best restart_state) = Inr [r0, r1]"
    using r0 by (simp add: nan_candidates_def)
  have "\<not> is_first_min (map fit_mse [r0, r1]) 0"
    using m0 by (simp add: is_first_min_def less_eq_double_def)
  with run runs m0 m1 b1 show ?thesis by simp
qed

text \<open>
  A candidate that the checks of \<open>fit_restarts\<close> refuse, after a candidate whose restart
  has left NaN in U: A = (3) and the candidates (0) and (1 2).
\<close>

theorem fit_restarts_shape_check_witness:
  "nrows (matrixV restart_state) = colsT (matrixA restart_state)
   \<and> 1 < length wide_candidates
   \<and> nrows (wide_candidates ! 1) = rowsT (matrixA restart_state)
   \<and> \<not> (rowsT (matrixA restart_state) = colsT (matrixA restart_state)
        \<and> ncols (wide_candidates ! 1) = rowsT (matrixA restart_state))
   \<and> restart cor0 (no_junk 1) (no_junk 1) (wide_candidates ! 1) restart_state
       = Inl DimsNotCompatible
   \<and> fit_restarts cor0 no_junk no_junk wide_candidates restart_state
       = Inl DimsNotCompatible"
proof -
  have h: "nrows (matrixV restart_state) = colsT (matrixA restart_state)"
    "1 < length wide_candidates"
    "nrows (wide_candidates ! 1) = rowsT (matrixA restart_state)"
    "\<not> (rowsT (matrixA restart_state) = colsT (matrixA restart_state)
        \<and> ncols (wide_candidates ! 1) = rowsT (matrixA restart_state))"
    by (simp_all add: restart_state_def wide_candidates_def one_by_one_def one_by_two_def)
  from restart_zero [OF restart_state_inv, of "no_junk 0" "no_junk 0"] obtain r0 where
    r0: "restart cor0 (no_junk 0) (no_junk 0) (one_by_one (Fin 0)) restart_state = Inr r0"
    and i1: "one_entry_inv (Fin 3) r0"
    by blast
  have "restart cor0 (no_junk 1) (no_junk 1) (one_by_two (Fin 1) (Fin 2))
          (r0\<lparr>best_model := 0\<rparr>) = Inl DimsNotCompatible"
    using i1 by (simp add: restart_def one_entry_inv_def one_by_one_def one_by_two_def)
  with r0 have run: "fit_restarts cor0 no_junk no_junk wide_candidates restart_state
      = Inl DimsNotCompatible"
    by (simp add: fit_restarts_def wide_candidates_def)
  from fit_restarts_shape_check [OF h, of cor0 no_junk no_junk] h run show ?thesis
    by (auto simp: restart_state_def one_by_one_def)
qed

end
